theory Spec2Isabelle
  imports Complex_Main
begin

section \<open>Text, lines and the values of JavaScript\<close>

text \<open>
  The repository holds four servers, each in one file: the stdio server index.ts, the HTTP
  server server.ts, and a second version of each that adds a timeout and retries
  (src/unnamed/part_001, "the stdio server with retries", and src/unnamed/part_000, "the
  HTTP server with retries"). Line numbers below are lines of these files.

  The servers are written in TypeScript. Their strings are modelled by
  \<^typ>\<open>string\<close>: one \<^typ>\<open>char\<close> per unit of text. The upstream body is read through a
  \<^verbatim>\<open>TextDecoder\<close> in streaming mode, whose outputs concatenate to the decoding of the
  concatenated reads, so a read is modelled by the piece of text it contributes.
\<close>

abbreviation nl :: char where
  "nl \<equiv> CHR 0x0A"

text \<open>\<^verbatim>\<open>String.prototype.split("\n")\<close>: the pieces between the newlines, never an empty array.\<close>

fun split_nl :: "string \<Rightarrow> string list" where
  "split_nl [] = [[]]"
| "split_nl (c # cs) =
     (if c = nl then [] # split_nl cs
      else (case split_nl cs of [] \<Rightarrow> [[c]] | l # ls \<Rightarrow> (c # l) # ls))"

text \<open>
  \<^verbatim>\<open>String.prototype.trim\<close> on the white space of ASCII. (JavaScript also strips the
  white space beyond ASCII; the only use of \<^verbatim>\<open>trim\<close> below is in a test whose outcome is
  decided by the prefix test beside it, see \<open>startsWith_data_not_blank\<close>.)
\<close>

definition js_space :: "char \<Rightarrow> bool" where
  "js_space c = (c \<in> {CHR 0x20, CHR 0x09, CHR 0x0A, CHR 0x0B, CHR 0x0C, CHR 0x0D})"

definition js_trim :: "string \<Rightarrow> string" where
  "js_trim s = rev (dropWhile js_space (rev (dropWhile js_space s)))"

definition startsWith :: "string \<Rightarrow> string \<Rightarrow> bool" where
  "startsWith s p = (take (length p) s = p)"

text \<open>Decimal rendering of an array index inside a template literal.\<close>

fun show_nat :: "nat \<Rightarrow> string" where
  "show_nat n =
     (if n < 10 then [''0123456789'' ! n]
      else show_nat (n div 10) @ [''0123456789'' ! (n mod 10)])"

text \<open>
  A number of JavaScript: a finite value, an infinity or \<^verbatim>\<open>NaN\<close>. \<^verbatim>\<open>JSON.parse\<close> rounds a
  literal to a double before any handler sees it, and a literal beyond the range of the
  doubles (\<^verbatim>\<open>1e400\<close>) arrives as an infinity; the finite values are modelled by rationals
  (only comparison with zero and equality are used on them).
\<close>

datatype jsnum = Finite rat | PosInfinity | NegInfinity | NaN

fun truthy_number :: "jsnum \<Rightarrow> bool" where
  "truthy_number (Finite r) = (r \<noteq> 0)"
| "truthy_number PosInfinity = True"
| "truthy_number NegInfinity = True"
| "truthy_number NaN = False"

text \<open>A value decoded from JSON, and \<^verbatim>\<open>undefined\<close> for what a request leaves out.\<close>

datatype jsval =
    JUndefined
  | JNull
  | JBool bool
  | JNum jsnum
  | JStr string
  | JArr "jsval list"
  | JObj "(string \<times> jsval) list"

fun typeof :: "jsval \<Rightarrow> string" where
  "typeof JUndefined = ''undefined''"
| "typeof JNull = ''object''"
| "typeof (JBool b) = ''boolean''"
| "typeof (JNum n) = ''number''"
| "typeof (JStr s) = ''string''"
| "typeof (JArr xs) = ''object''"
| "typeof (JObj kvs) = ''object''"

text \<open>Truthiness, as \<^verbatim>\<open>if (x)\<close>, \<^verbatim>\<open>!x\<close> and \<^verbatim>\<open>x || y\<close> test it.\<close>

fun truthy :: "jsval \<Rightarrow> bool" where
  "truthy JUndefined = False"
| "truthy JNull = False"
| "truthy (JBool b) = b"
| "truthy (JNum n) = truthy_number n"
| "truthy (JStr s) = (s \<noteq> [])"
| "truthy (JArr xs) = True"
| "truthy (JObj kvs) = True"

text \<open>
  Reading a property that the destructuring patterns of the handlers name (\<^verbatim>\<open>name\<close>,
  \<^verbatim>\<open>arguments\<close>, \<^verbatim>\<open>query\<close>, \<^verbatim>\<open>method\<close> and so on). An object is the list of its properties
  as parsed, each name once; it yields the property or \<^verbatim>\<open>undefined\<close>. A string, number,
  boolean or array has none of these names. Reading a property of \<^verbatim>\<open>undefined\<close> or
  \<^verbatim>\<open>null\<close> throws a TypeError, which is the result \<open>None\<close>.
\<close>

fun get_prop :: "jsval \<Rightarrow> string \<Rightarrow> jsval option" where
  "get_prop JUndefined k = None"
| "get_prop JNull k = None"
| "get_prop (JObj kvs) k = Some (case map_of kvs k of None \<Rightarrow> JUndefined | Some v \<Rightarrow> v)"
| "get_prop v k = Some JUndefined"

section \<open>The records of the upstream API\<close>

record SearchResult =
  title :: string
  url :: string
  snippet :: "string option"

record Usage =
  prompt_tokens :: nat
  completion_tokens :: nat
  total_tokens :: nat

record StreamDelta =
  delta_content :: "string option"
  delta_role :: "string option"

record StreamChoice =
  delta :: StreamDelta
  choice_index :: nat
  choice_finish_reason :: "string option"

record StreamChunk =
  chunk_id :: string
  chunk_model :: string
  choices :: "StreamChoice list"
  search_results :: "SearchResult list option"
  usage :: "Usage option"

record Message =
  msg_role :: string
  msg_content :: string

record Choice =
  message :: Message
  finish_reason :: string
  index :: nat

record ChatCompletionResponse =
  cc_id :: string
  cc_model :: string
  cc_choices :: "Choice list"
  cc_search_results :: "SearchResult list option"
  cc_usage :: "Usage option"

text \<open>
  \<^verbatim>\<open>const chunk: StreamChunk = JSON.parse(data)\<close> in the \<^verbatim>\<open>try\<close> of the decode loops: the
  chunk, or \<open>None\<close> when \<^verbatim>\<open>JSON.parse\<close> throws. The parser is the platform's, so the functions
  below take it as a parameter, and what it returns is taken to have the shape that the
  annotation declares (in particular an array \<^verbatim>\<open>choices\<close>).
\<close>

type_synonym chunk_parser = "string \<Rightarrow> StreamChunk option"

section \<open>Formatting citations\<close>

text \<open>\<^verbatim>\<open>formatSearchResults\<close> (index.ts, server.ts): the body of the \<^verbatim>\<open>forEach\<close>, from index \<open>i\<close> on.\<close>

fun format_each :: "nat \<Rightarrow> SearchResult list \<Rightarrow> string" where
  "format_each i [] = []"
| "format_each i (result # others) =
     show_nat (i + 1) @ ''. **'' @ title result @ ''**'' @ [nl]
     @ ''   '' @ url result @ [nl]
     @ (case snippet result of
          None \<Rightarrow> []
        | Some s \<Rightarrow> if s \<noteq> [] then ''   '' @ s @ [nl] else [])
     @ [nl]
     @ format_each (i + 1) others"

definition formatSearchResults :: "SearchResult list \<Rightarrow> string" where
  "formatSearchResults results =
     (if results = [] then []
      else [nl, nl] @ ''## Sources'' @ [nl, nl] @ format_each 0 results)"

section \<open>The decode loop\<close>

text \<open>
  \<^verbatim>\<open>chunk.choices[0]?.delta?.content\<close>: \<^verbatim>\<open>undefined\<close> when the chunk has no choice.
\<close>

definition chunk_delta :: "StreamChunk \<Rightarrow> string option" where
  "chunk_delta chunk =
     (case choices chunk of [] \<Rightarrow> None | c # _ \<Rightarrow> delta_content (delta c))"

text \<open>The variables the loops accumulate into, and their initial values.\<close>

record accum =
  content :: string
  searchResults :: "SearchResult list option"

record consume_accum = accum +
  lastChunk :: "StreamChunk option"

definition hsr_init :: accum where
  "hsr_init = \<lparr>content = [], searchResults = None\<rparr>"

definition cps_init :: consume_accum where
  "cps_init = \<lparr>content = [], searchResults = None, lastChunk = None\<rparr>"

text \<open>
  The \<^verbatim>\<open>try\<close> block of \<^verbatim>\<open>handleStreamingResponse\<close> (index.ts 310-326; the same in
  server.ts and in the stdio server with retries), after \<^verbatim>\<open>JSON.parse\<close> has returned the
  chunk: a truthy delta is appended; an array is truthy also when it is empty, so every
  chunk that has \<^verbatim>\<open>search_results\<close> sets the variable.
\<close>

definition hsr_chunk :: "accum \<Rightarrow> StreamChunk \<Rightarrow> accum" where
  "hsr_chunk a chunk =
     (let a1 = (case chunk_delta chunk of
                  None \<Rightarrow> a
                | Some d \<Rightarrow> if d \<noteq> [] then a\<lparr>content := content a @ d\<rparr> else a)
      in (case search_results chunk of
            None \<Rightarrow> a1
          | Some rs \<Rightarrow> a1\<lparr>searchResults := Some rs\<rparr>))"

text \<open>The whole \<^verbatim>\<open>try\<close>/\<^verbatim>\<open>catch\<close>: a payload that does not parse is skipped (\<^verbatim>\<open>continue\<close>).\<close>

definition hsr_frame :: "chunk_parser \<Rightarrow> accum \<Rightarrow> string \<Rightarrow> accum" where
  "hsr_frame JSON_parse a data =
     (case JSON_parse data of None \<Rightarrow> a | Some chunk \<Rightarrow> hsr_chunk a chunk)"

text \<open>
  The \<^verbatim>\<open>try\<close> block of \<^verbatim>\<open>consumePerplexityStream\<close> (HTTP server with retries, 1092-1109):
  it also keeps the last chunk, and stores \<^verbatim>\<open>search_results\<close> only while the variable is
  still \<^verbatim>\<open>undefined\<close> ("only store once").
\<close>

definition cps_chunk :: "consume_accum \<Rightarrow> StreamChunk \<Rightarrow> consume_accum" where
  "cps_chunk a chunk =
     (let a0 = a\<lparr>lastChunk := Some chunk\<rparr>;
          a1 = (case chunk_delta chunk of
                  None \<Rightarrow> a0
                | Some d \<Rightarrow> if d \<noteq> [] then a0\<lparr>content := content a0 @ d\<rparr> else a0)
      in (case search_results chunk of
            None \<Rightarrow> a1
          | Some rs \<Rightarrow>
              if searchResults a1 = None then a1\<lparr>searchResults := Some rs\<rparr> else a1))"

definition cps_frame :: "chunk_parser \<Rightarrow> consume_accum \<Rightarrow> string \<Rightarrow> consume_accum" where
  "cps_frame JSON_parse a data =
     (case JSON_parse data of None \<Rightarrow> a | Some chunk \<Rightarrow> cps_chunk a chunk)"

text \<open>
  \<^verbatim>\<open>for (const line of lines)\<close>, the same in every decode loop: a line that is blank or
  lacks the prefix is skipped, the sentinel breaks out of the \<^verbatim>\<open>for\<close> (not out of the
  \<^verbatim>\<open>while\<close> around it), any other payload goes through the \<^verbatim>\<open>try\<close> block \<open>frame\<close>.
\<close>

fun for_lines :: "('a \<Rightarrow> string \<Rightarrow> 'a) \<Rightarrow> 'a \<Rightarrow> string list \<Rightarrow> 'a" where
  "for_lines frame a [] = a"
| "for_lines frame a (line # rest) =
     (if js_trim line = [] \<or> \<not> startsWith line ''data: '' then for_lines frame a rest
      else (let data = drop 6 line in
            if data = ''[DONE]'' then a
            else for_lines frame (frame a data) rest))"

text \<open>
  \<^verbatim>\<open>while (true)\<close> over the reads of the body, until \<^verbatim>\<open>done\<close>: the read is appended to the
  buffer, the buffer is split at the newlines, the last piece stays in the buffer
  (\<^verbatim>\<open>lines.pop() || ""\<close>) and the pieces before it are the lines of this round.
\<close>

fun read_loop :: "('a \<Rightarrow> string \<Rightarrow> 'a) \<Rightarrow> 'a \<times> string \<Rightarrow> string list \<Rightarrow> 'a \<times> string" where
  "read_loop frame (a, buffer) [] = (a, buffer)"
| "read_loop frame (a, buffer) (chunk # reads) =
     (let lines = split_nl (buffer @ chunk)
      in read_loop frame (for_lines frame a (butlast lines), last lines) reads)"

text \<open>
  A response body as its reader delivers it: the reads in order, then either \<^verbatim>\<open>done\<close> or a
  rejected \<^verbatim>\<open>read()\<close>. \<open>None\<close> stands for a response without a body
  (\<^verbatim>\<open>response.body?.getReader()\<close> is \<^verbatim>\<open>undefined\<close>).
\<close>

datatype stream_end = Done | ReadFails string

type_synonym body_stream = "string list \<times> stream_end"

datatype stream_error = BodyNotReadable | ReadError string

definition handleStreamingResponse :: "chunk_parser \<Rightarrow> body_stream option \<Rightarrow> stream_error + string" where
  "handleStreamingResponse JSON_parse body =
     (case body of
        None \<Rightarrow> Inl BodyNotReadable
      | Some (reads, ending) \<Rightarrow>
          (let (a, buffer) = read_loop (hsr_frame JSON_parse) (hsr_init, []) reads
           in (case ending of
                 ReadFails e \<Rightarrow> Inl (ReadError e)
               | Done \<Rightarrow>
                   Inr (content a @ (case searchResults a of
                                       None \<Rightarrow> []
                                     | Some rs \<Rightarrow> formatSearchResults rs)))))"

definition consumePerplexityStream ::
  "chunk_parser \<Rightarrow> body_stream option \<Rightarrow> stream_error + ChatCompletionResponse" where
  "consumePerplexityStream JSON_parse body =
     (case body of
        None \<Rightarrow> Inl BodyNotReadable
      | Some (reads, ending) \<Rightarrow>
          (let (a, buffer) = read_loop (cps_frame JSON_parse) (cps_init, []) reads
           in (case ending of
                 ReadFails e \<Rightarrow> Inl (ReadError e)
               | Done \<Rightarrow>
                   Inr \<lparr>cc_id = (case lastChunk a of
                                    None \<Rightarrow> ''unknown''
                                  | Some c \<Rightarrow> if chunk_id c \<noteq> [] then chunk_id c else ''unknown''),
                        cc_model = (case lastChunk a of
                                      None \<Rightarrow> ''sonar''
                                    | Some c \<Rightarrow> if chunk_model c \<noteq> [] then chunk_model c else ''sonar''),
                        cc_choices =
                          [\<lparr>message = \<lparr>msg_role = ''assistant'',
                                       msg_content = (if content a \<noteq> [] then content a
                                                      else ''No response generated.'')\<rparr>,
                            finish_reason = ''stop'',
                            index = 0\<rparr>],
                        cc_search_results = searchResults a,
                        cc_usage = (case lastChunk a of None \<Rightarrow> None | Some c \<Rightarrow> usage c)\<rparr>)))"

section \<open>The upstream API as a request sees it\<close>

text \<open>
  A \<^verbatim>\<open>Response\<close> of \<^verbatim>\<open>fetch\<close>: its status line and what the three ways of reading it
  give. \<^verbatim>\<open>response.ok\<close> is a status in the range 200 to 299.
\<close>

record Response =
  status :: nat
  statusText :: string
  text_body :: "string option"
  json_body :: "ChatCompletionResponse option"
  body :: "body_stream option"

definition ok :: "Response \<Rightarrow> bool" where
  "ok response = (200 \<le> status response \<and> status response \<le> 299)"

text \<open>
  A rejected \<^verbatim>\<open>fetch\<close>: an error named \<^verbatim>\<open>AbortError\<close>, or any other error. The network is
  given by the outcome of each call in turn and by whether the abort signal of the request
  is set when an attempt begins.
\<close>

datatype fetch_error = AbortError | FetchFailed string

datatype fetch_outcome = Responds Response | Rejects fetch_error

record upstream =
  fetch :: "nat \<Rightarrow> fetch_outcome"
  aborted :: "nat \<Rightarrow> bool"

section \<open>Retrying\<close>

definition RETRYABLE_STATUS :: "nat set" where
  "RETRYABLE_STATUS = {408, 429, 500, 502, 503, 504}"

text \<open>
  \<^verbatim>\<open>retryFetch\<close> (the servers with retries): the \<^verbatim>\<open>for\<close> loop from \<open>attempt\<close> on. The result
  is what the function returns or throws, and the number of calls to \<^verbatim>\<open>undiciFetch\<close> it
  made. \<open>UnexpectedState\<close> is the \<^verbatim>\<open>throw\<close> after the loop. The pause between two attempts
  (\<^verbatim>\<open>baseDelayMs * 2 ** attempt\<close> and up to 30 percent more) takes time and changes nothing
  else, so it is left out; every call is taken to settle. The number of attempts is an
  integer, as at every call (the default and both callers give 2).
\<close>

datatype retry_error = Thrown fetch_error | UnexpectedState

function retry_loop :: "upstream \<Rightarrow> int \<Rightarrow> nat \<Rightarrow> (retry_error + Response) \<times> nat" where
  "retry_loop net maxAttempts attempt =
     (if int attempt < maxAttempts then
        (if aborted net attempt then (Inl (Thrown AbortError), 0)
         else (case fetch net attempt of
                 Responds response \<Rightarrow>
                   if ok response \<or> status response \<notin> RETRYABLE_STATUS then (Inr response, 1)
                   else if int attempt = maxAttempts - 1 then (Inr response, 1)
                   else (case retry_loop net maxAttempts (attempt + 1) of (r, n) \<Rightarrow> (r, n + 1))
               | Rejects error \<Rightarrow>
                   if error = AbortError then (Inl (Thrown error), 1)
                   else if int attempt = maxAttempts - 1 then (Inl (Thrown error), 1)
                   else (case retry_loop net maxAttempts (attempt + 1) of (r, n) \<Rightarrow> (r, n + 1))))
      else (Inl UnexpectedState, 0))"
  by pat_completeness auto
termination
  by (relation "measure (\<lambda>(net, maxAttempts, attempt). nat (maxAttempts - int attempt))") auto

declare retry_loop.simps [simp del]

definition retryFetch :: "upstream \<Rightarrow> int \<Rightarrow> (retry_error + Response) \<times> nat" where
  "retryFetch net maxAttempts = retry_loop net maxAttempts 0"

section \<open>Building the upstream request\<close>

record search_options =
  opt_model :: "string option"
  opt_stream :: "bool option"
  opt_search_mode :: "string option"
  opt_recency_filter :: "string option"
  opt_reasoning_effort :: "string option"
  opt_max_tokens :: "jsnum option"
  opt_temperature :: "jsnum option"
  opt_search_context_size :: "string option"
  opt_timeout :: "jsnum option"

text \<open>
  The JSON body of the POST. \<open>user_content\<close> is the content of the single message of role
  \<^verbatim>\<open>user\<close>; \<open>web_search_options\<close> holds the \<^verbatim>\<open>search_context_size\<close> of that object.
\<close>

record request_body =
  model :: string
  user_content :: jsval
  stream :: bool
  search_mode :: "string option"
  recency_filter :: "string option"
  reasoning_effort :: "string option"
  max_tokens :: "jsnum option"
  temperature :: "jsnum option"
  web_search_options :: "string option"

text \<open>\<^verbatim>\<open>if (options.x) body.x = options.x\<close> on a string and on a number: the falsy ones stay out.\<close>

definition if_truthy_string :: "string option \<Rightarrow> string option" where
  "if_truthy_string x = (case x of None \<Rightarrow> None | Some s \<Rightarrow> if s \<noteq> [] then Some s else None)"

definition if_truthy_number :: "jsnum option \<Rightarrow> jsnum option" where
  "if_truthy_number x =
     (case x of None \<Rightarrow> None | Some n \<Rightarrow> if truthy_number n then Some n else None)"

text \<open>\<^verbatim>\<open>options.model || "sonar"\<close>.\<close>

definition model_or_sonar :: "string option \<Rightarrow> string" where
  "model_or_sonar m = (case m of None \<Rightarrow> ''sonar'' | Some s \<Rightarrow> if s \<noteq> [] then s else ''sonar'')"

text \<open>
  The body that \<^verbatim>\<open>performSearch\<close> of index.ts (209-224) and of server.ts builds:
  \<^verbatim>\<open>stream\<close> is \<^verbatim>\<open>options.stream || false\<close>, \<^verbatim>\<open>max_tokens\<close> is guarded by truthiness and
  \<^verbatim>\<open>temperature\<close> by \<^verbatim>\<open>!== undefined\<close>.
\<close>

definition body_index :: "jsval \<Rightarrow> search_options \<Rightarrow> request_body" where
  "body_index query options =
     \<lparr>model = model_or_sonar (opt_model options),
      user_content = query,
      stream = (case opt_stream options of None \<Rightarrow> False | Some b \<Rightarrow> b),
      search_mode = if_truthy_string (opt_search_mode options),
      recency_filter = if_truthy_string (opt_recency_filter options),
      reasoning_effort = if_truthy_string (opt_reasoning_effort options),
      max_tokens = if_truthy_number (opt_max_tokens options),
      temperature = opt_temperature options,
      web_search_options = None\<rparr>"

text \<open>
  The body in the stdio server with retries (277-297): \<^verbatim>\<open>stream\<close> defaults to true, and
  \<^verbatim>\<open>search_context_size\<close> is passed on.
\<close>

definition body_retry_stdio :: "jsval \<Rightarrow> search_options \<Rightarrow> request_body" where
  "body_retry_stdio query options =
     \<lparr>model = model_or_sonar (opt_model options),
      user_content = query,
      stream = (case opt_stream options of None \<Rightarrow> True | Some b \<Rightarrow> b),
      search_mode = if_truthy_string (opt_search_mode options),
      recency_filter = if_truthy_string (opt_recency_filter options),
      reasoning_effort = if_truthy_string (opt_reasoning_effort options),
      max_tokens = if_truthy_number (opt_max_tokens options),
      temperature = opt_temperature options,
      web_search_options = if_truthy_string (opt_search_context_size options)\<rparr>"

text \<open>The body in the HTTP server with retries (969-986): no \<^verbatim>\<open>reasoning_effort\<close>.\<close>

definition body_retry_http :: "jsval \<Rightarrow> search_options \<Rightarrow> request_body" where
  "body_retry_http query options =
     \<lparr>model = model_or_sonar (opt_model options),
      user_content = query,
      stream = (case opt_stream options of None \<Rightarrow> True | Some b \<Rightarrow> b),
      search_mode = if_truthy_string (opt_search_mode options),
      recency_filter = if_truthy_string (opt_recency_filter options),
      reasoning_effort = None,
      max_tokens = if_truthy_number (opt_max_tokens options),
      temperature = opt_temperature options,
      web_search_options = if_truthy_string (opt_search_context_size options)\<rparr>"

text \<open>
  \<^verbatim>\<open>JSON.stringify(body)\<close>, the text that every \<^verbatim>\<open>performSearch\<close> posts, as the JSON document
  it denotes. \<^verbatim>\<open>JSON.stringify\<close> writes a finite number as it is and every other number as
  \<^verbatim>\<open>null\<close>; it leaves out a property whose value is \<^verbatim>\<open>undefined\<close> and writes \<^verbatim>\<open>null\<close> for an
  \<^verbatim>\<open>undefined\<close> element of an array.
\<close>

datatype json =
    JsonNull
  | JsonBool bool
  | JsonNumber rat
  | JsonString string
  | JsonArray "json list"
  | JsonObject "(string \<times> json) list"

fun stringify_number :: "jsnum \<Rightarrow> json" where
  "stringify_number (Finite r) = JsonNumber r"
| "stringify_number PosInfinity = JsonNull"
| "stringify_number NegInfinity = JsonNull"
| "stringify_number NaN = JsonNull"

definition element :: "json option \<Rightarrow> json" where
  "element j = (case j of None \<Rightarrow> JsonNull | Some x \<Rightarrow> x)"

definition property :: "string \<times> json option \<Rightarrow> (string \<times> json) list" where
  "property kv = (case snd kv of None \<Rightarrow> [] | Some x \<Rightarrow> [(fst kv, x)])"

primrec stringify :: "jsval \<Rightarrow> json option" where
  "stringify JUndefined = None"
| "stringify JNull = Some JsonNull"
| "stringify (JBool b) = Some (JsonBool b)"
| "stringify (JNum n) = Some (stringify_number n)"
| "stringify (JStr s) = Some (JsonString s)"
| "stringify (JArr vs) = Some (JsonArray (map element (map stringify vs)))"
| "stringify (JObj kvs) = Some (JsonObject (concat (map property (map (map_prod id stringify) kvs))))"

definition JSON_stringify :: "request_body \<Rightarrow> json" where
  "JSON_stringify request =
     JsonObject
       ([(''model'', JsonString (model request)),
         (''messages'',
            JsonArray [JsonObject ((''role'', JsonString ''user'')
                                   # property (''content'', stringify (user_content request)))]),
         (''stream'', JsonBool (stream request))]
        @ property (''search_mode'', map_option JsonString (search_mode request))
        @ property (''recency_filter'', map_option JsonString (recency_filter request))
        @ property (''reasoning_effort'', map_option JsonString (reasoning_effort request))
        @ property (''max_tokens'', map_option stringify_number (max_tokens request))
        @ property (''temperature'', map_option stringify_number (temperature request))
        @ property (''web_search_options'',
            map_option (\<lambda>size. JsonObject [(''search_context_size'', JsonString size)])
              (web_search_options request)))"

text \<open>The value of a property of a JSON object.\<close>

definition json_member :: "json \<Rightarrow> string \<Rightarrow> json option" where
  "json_member j k = (case j of JsonObject kvs \<Rightarrow> map_of kvs k | _ \<Rightarrow> None)"

section \<open>performSearch\<close>

text \<open>
  What \<^verbatim>\<open>performSearch\<close> throws: the network error, the timeout (with retries only), the
  upstream error with status, status text and body, the JSON body that does not parse, and
  what \<^verbatim>\<open>handleStreamingResponse\<close> throws.
\<close>

datatype search_error =
    NetworkError retry_error
  | TimeoutError jsnum
  | ApiError nat string string
  | JsonError
  | StreamError stream_error

definition error_text :: "Response \<Rightarrow> string" where
  "error_text response =
     (case text_body response of None \<Rightarrow> ''Unable to parse error response'' | Some t \<Rightarrow> t)"

text \<open>
  \<^verbatim>\<open>data.choices[0]?.message?.content || "No response generated."\<close> followed by the formatted
  citations: the end of the non-streaming branch in index.ts and server.ts.
\<close>

definition completion_text :: "ChatCompletionResponse \<Rightarrow> string" where
  "completion_text data =
     (case cc_choices data of
        [] \<Rightarrow> ''No response generated.''
      | c # _ \<Rightarrow> if msg_content (message c) \<noteq> [] then msg_content (message c)
                 else ''No response generated.'')
     @ (case cc_search_results data of None \<Rightarrow> [] | Some rs \<Rightarrow> formatSearchResults rs)"

text \<open>
  \<^verbatim>\<open>performSearch\<close> of index.ts (182-269): one \<^verbatim>\<open>fetch\<close>, no retry. The second component
  lists the bodies posted to the upstream API, in order.
\<close>

definition performSearch_index ::
  "chunk_parser \<Rightarrow> upstream \<Rightarrow> jsval \<Rightarrow> search_options \<Rightarrow> (search_error + string) \<times> request_body list" where
  "performSearch_index JSON_parse net query options =
     (let request = body_index query options in
      ((case fetch net 0 of
          Rejects error \<Rightarrow> Inl (NetworkError (Thrown error))
        | Responds response \<Rightarrow>
            if \<not> ok response
            then Inl (ApiError (status response) (statusText response) (error_text response))
            else if stream request
            then (case handleStreamingResponse JSON_parse (body response) of
                    Inl e \<Rightarrow> Inl (StreamError e)
                  | Inr text \<Rightarrow> Inr text)
            else (case json_body response of
                    None \<Rightarrow> Inl JsonError
                  | Some data \<Rightarrow> Inr (completion_text data))),
       [request]))"

text \<open>\<^verbatim>\<open>performSearch\<close> of server.ts (177-264): the same, but a streaming response is returned open.\<close>

datatype server_result = Text string | Open Response

definition performSearch_server ::
  "upstream \<Rightarrow> jsval \<Rightarrow> search_options \<Rightarrow> (search_error + server_result) \<times> request_body list" where
  "performSearch_server net query options =
     (let request = body_index query options in
      ((case fetch net 0 of
          Rejects error \<Rightarrow> Inl (NetworkError (Thrown error))
        | Responds response \<Rightarrow>
            if \<not> ok response
            then Inl (ApiError (status response) (statusText response) (error_text response))
            else if stream request then Inr (Open response)
            else (case json_body response of
                    None \<Rightarrow> Inl JsonError
                  | Some data \<Rightarrow> Inr (Text (completion_text data)))),
       [request]))"

text \<open>\<^verbatim>\<open>options.timeout || 15000\<close>.\<close>

definition timeout_of :: "search_options \<Rightarrow> jsnum" where
  "timeout_of options =
     (case opt_timeout options of None \<Rightarrow> Finite 15000
      | Some t \<Rightarrow> if truthy_number t then t else Finite 15000)"

text \<open>
  The \<^verbatim>\<open>try\<close>/\<^verbatim>\<open>catch\<close> around \<^verbatim>\<open>retryFetch(url, ..., 2, 300)\<close> and the status test after it, the
  same in both servers with retries: an \<^verbatim>\<open>AbortError\<close> becomes the timeout, any other error
  the network error. The same body is posted at every attempt.
\<close>

definition fetch_with_retry ::
  "upstream \<Rightarrow> search_options \<Rightarrow> request_body \<Rightarrow> (search_error + Response) \<times> request_body list" where
  "fetch_with_retry net options request =
     (case retryFetch net 2 of
        (r, n) \<Rightarrow>
          ((case r of
              Inl (Thrown AbortError) \<Rightarrow> Inl (TimeoutError (timeout_of options))
            | Inl error \<Rightarrow> Inl (NetworkError error)
            | Inr response \<Rightarrow>
                if \<not> ok response
                then Inl (ApiError (status response) (statusText response) (error_text response))
                else Inr response),
           replicate n request))"

text \<open>\<^verbatim>\<open>performSearch\<close> of the stdio server with retries (247-363).\<close>

definition performSearch_retry_stdio ::
  "chunk_parser \<Rightarrow> upstream \<Rightarrow> jsval \<Rightarrow> search_options \<Rightarrow> (search_error + string) \<times> request_body list" where
  "performSearch_retry_stdio JSON_parse net query options =
     (let request = body_retry_stdio query options in
      (case fetch_with_retry net options request of
         (r, posted) \<Rightarrow>
           ((case r of
               Inl error \<Rightarrow> Inl error
             | Inr response \<Rightarrow>
                 if stream request
                 then (case handleStreamingResponse JSON_parse (body response) of
                         Inl e \<Rightarrow> Inl (StreamError e)
                       | Inr text \<Rightarrow> Inr text)
                 else (case json_body response of
                         None \<Rightarrow> Inl JsonError
                       | Some data \<Rightarrow> Inr (completion_text data))),
            posted)))"

text \<open>
  \<^verbatim>\<open>performSearch\<close> of the HTTP server with retries (940-1050): a streaming response is
  returned open, a buffered one as the parsed completion.
\<close>

datatype retry_http_result = Completion ChatCompletionResponse | OpenResponse Response

definition performSearch_retry_http ::
  "upstream \<Rightarrow> jsval \<Rightarrow> search_options \<Rightarrow> (search_error + retry_http_result) \<times> request_body list" where
  "performSearch_retry_http net query options =
     (let request = body_retry_http query options in
      (case fetch_with_retry net options request of
         (r, posted) \<Rightarrow>
           ((case r of
               Inl error \<Rightarrow> Inl error
             | Inr response \<Rightarrow>
                 if stream request then Inr (OpenResponse response)
                 else (case json_body response of
                         None \<Rightarrow> Inl JsonError
                       | Some data \<Rightarrow> Inr (Completion data))),
            posted)))"

section \<open>Reading the arguments of a tool call\<close>

text \<open>
  A property of a value that is known not to be \<^verbatim>\<open>undefined\<close> or \<^verbatim>\<open>null\<close> (the handlers
  test this first, or the destructuring has thrown).
\<close>

definition field :: "jsval \<Rightarrow> string \<Rightarrow> jsval" where
  "field v k = (case get_prop v k of None \<Rightarrow> JUndefined | Some x \<Rightarrow> x)"

text \<open>\<^verbatim>\<open>typeof x === "string" ? x : undefined\<close>, and the same for booleans and numbers.\<close>

definition string_or_undefined :: "jsval \<Rightarrow> string option" where
  "string_or_undefined v =
     (if typeof v = ''string'' then (case v of JStr s \<Rightarrow> Some s | _ \<Rightarrow> None) else None)"

definition boolean_or_undefined :: "jsval \<Rightarrow> bool option" where
  "boolean_or_undefined v =
     (if typeof v = ''boolean'' then (case v of JBool b \<Rightarrow> Some b | _ \<Rightarrow> None) else None)"

definition number_or_undefined :: "jsval \<Rightarrow> jsnum option" where
  "number_or_undefined v =
     (if typeof v = ''number'' then (case v of JNum n \<Rightarrow> Some n | _ \<Rightarrow> None) else None)"

text \<open>\<^verbatim>\<open>typeof stream === 'boolean' ? stream : false\<close>.\<close>

definition shouldStream :: "jsval \<Rightarrow> bool" where
  "shouldStream args =
     (case boolean_or_undefined (field args ''stream'') of None \<Rightarrow> False | Some b \<Rightarrow> b)"

text \<open>The options object that the handler of index.ts passes to \<^verbatim>\<open>performSearch\<close> (390-398).\<close>

definition options_index :: "jsval \<Rightarrow> search_options" where
  "options_index args =
     \<lparr>opt_model = string_or_undefined (field args ''model''),
      opt_stream = boolean_or_undefined (field args ''stream''),
      opt_search_mode = string_or_undefined (field args ''search_mode''),
      opt_recency_filter = string_or_undefined (field args ''recency_filter''),
      opt_reasoning_effort = string_or_undefined (field args ''reasoning_effort''),
      opt_max_tokens = number_or_undefined (field args ''max_tokens''),
      opt_temperature = number_or_undefined (field args ''temperature''),
      opt_search_context_size = None,
      opt_timeout = None\<rparr>"

text \<open>The same in the stdio server with retries (485-494): \<^verbatim>\<open>search_context_size\<close> is added.\<close>

definition options_retry_stdio :: "jsval \<Rightarrow> search_options" where
  "options_retry_stdio args =
     (options_index args)
       \<lparr>opt_search_context_size := string_or_undefined (field args ''search_context_size'')\<rparr>"

text \<open>
  In server.ts (both routes) \<^verbatim>\<open>stream\<close> is \<^verbatim>\<open>shouldStream\<close>. In the HTTP server with
  retries there is no \<^verbatim>\<open>reasoning_effort\<close>; \<^verbatim>\<open>stream\<close> is \<^verbatim>\<open>shouldStream\<close> on \<^verbatim>\<open>/mcp/call\<close>
  and always true on \<^verbatim>\<open>/mcp\<close>.
\<close>

definition options_server :: "jsval \<Rightarrow> search_options" where
  "options_server args = (options_index args)\<lparr>opt_stream := Some (shouldStream args)\<rparr>"

definition options_retry_http :: "bool \<Rightarrow> jsval \<Rightarrow> search_options" where
  "options_retry_http streaming args =
     (options_index args)
       \<lparr>opt_stream := Some streaming,
        opt_reasoning_effort := None,
        opt_search_context_size := string_or_undefined (field args ''search_context_size'')\<rparr>"

section \<open>The stdio handlers\<close>

text \<open>
  What a handler reports: the errors it throws itself, a failed search, a TypeError of the
  runtime, an unknown tool or method, and the parse error of the JSON-RPC route.
\<close>

datatype handler_error =
    NoArgumentsProvided
  | InvalidQuery
  | SearchFailed search_error
  | TypeError
  | UnknownTool jsval
  | UnknownMethod jsval
  | ParseError

text \<open>
  The blocks of a tool result: a text, the text of an error message (\<^verbatim>\<open>Error: ...\<close> or
  \<^verbatim>\<open>Unknown tool: ...\<close>), and the resource block of the search results. \<open>NotAString\<close> is a
  \<^verbatim>\<open>text\<close> that holds an open response; no request reaches it.
\<close>

datatype content_block =
    TextBlock string
  | ErrorText handler_error
  | ResourceBlock "SearchResult list"
  | NotAString

record CallToolResult =
  blocks :: "content_block list"
  isError :: bool

text \<open>
  The \<^verbatim>\<open>CallToolRequestSchema\<close> handler of index.ts (365-424), on \<^verbatim>\<open>request.params.name\<close>
  and \<^verbatim>\<open>request.params.arguments\<close>, with the bodies it had posted upstream.
\<close>

definition CallTool_index ::
  "chunk_parser \<Rightarrow> upstream \<Rightarrow> jsval \<Rightarrow> jsval \<Rightarrow> CallToolResult \<times> request_body list" where
  "CallTool_index JSON_parse net name args =
     (if \<not> truthy args then (\<lparr>blocks = [ErrorText NoArgumentsProvided], isError = True\<rparr>, [])
      else if name = JStr ''perplexity-completions'' then
        (if typeof (field args ''query'') \<noteq> ''string''
         then (\<lparr>blocks = [ErrorText InvalidQuery], isError = True\<rparr>, [])
         else (case performSearch_index JSON_parse net (field args ''query'') (options_index args) of
                 (Inl error, posted) \<Rightarrow>
                   (\<lparr>blocks = [ErrorText (SearchFailed error)], isError = True\<rparr>, posted)
               | (Inr text, posted) \<Rightarrow>
                   (\<lparr>blocks = [TextBlock text], isError = False\<rparr>, posted)))
      else (\<lparr>blocks = [ErrorText (UnknownTool name)], isError = True\<rparr>, []))"

text \<open>The same handler in the stdio server with retries (459-522).\<close>

definition CallTool_retry_stdio ::
  "chunk_parser \<Rightarrow> upstream \<Rightarrow> jsval \<Rightarrow> jsval \<Rightarrow> CallToolResult \<times> request_body list" where
  "CallTool_retry_stdio JSON_parse net name args =
     (if \<not> truthy args then (\<lparr>blocks = [ErrorText NoArgumentsProvided], isError = True\<rparr>, [])
      else if name = JStr ''perplexity-completions'' then
        (if typeof (field args ''query'') \<noteq> ''string''
         then (\<lparr>blocks = [ErrorText InvalidQuery], isError = True\<rparr>, [])
         else (case performSearch_retry_stdio JSON_parse net (field args ''query'')
                      (options_retry_stdio args) of
                 (Inl error, posted) \<Rightarrow>
                   (\<lparr>blocks = [ErrorText (SearchFailed error)], isError = True\<rparr>, posted)
               | (Inr text, posted) \<Rightarrow>
                   (\<lparr>blocks = [TextBlock text], isError = False\<rparr>, posted)))
      else (\<lparr>blocks = [ErrorText (UnknownTool name)], isError = True\<rparr>, []))"

section \<open>The HTTP handlers\<close>

text \<open>
  What the live re-stream of server.ts writes to the client: a content delta, the formatted
  citations, the final marker, or an error.
\<close>

datatype client_event =
    ContentEvent string
  | CitationsEvent string
  | DoneMarker
  | ErrorEvent stream_error

text \<open>
  The JSON documents the routes send: \<^verbatim>\<open>{content, isError}\<close>, \<^verbatim>\<open>{error, isError: true}\<close>, the
  JSON-RPC result with its content, the JSON-RPC answers to \<^verbatim>\<open>initialize\<close> and
  \<^verbatim>\<open>tools/list\<close>, the JSON-RPC error with its code, and an event stream.
\<close>

datatype payload =
    ToolPayload "content_block list" bool
  | ErrorPayload handler_error
  | RpcResult jsval "content_block list"
  | RpcInitialize jsval
  | RpcToolsList jsval
  | RpcError jsval int handler_error
  | EventStream "client_event list"

text \<open>
  \<open>Reply\<close> is \<^verbatim>\<open>res.status(n).json(...)\<close> (status 200 when none is set). \<open>Unhandled\<close> is a
  rejection that leaves the route: server.ts returns the promise of \<^verbatim>\<open>streamPerplexityToSSE\<close>
  without awaiting it, so the \<^verbatim>\<open>catch\<close> of the route does not see it.
\<close>

datatype http_response = Reply nat payload | Unhandled stream_error

text \<open>
  The content that the HTTP server with retries builds from a completion (1423-1438 and
  three more times): the text when it is not empty, the resource when the list is not.
\<close>

definition completion_blocks :: "ChatCompletionResponse \<Rightarrow> content_block list" where
  "completion_blocks r =
     (case cc_choices r of
        [] \<Rightarrow> []
      | c # _ \<Rightarrow> if msg_content (message c) \<noteq> [] then [TextBlock (msg_content (message c))] else [])
     @ (case cc_search_results r of
          None \<Rightarrow> []
        | Some rs \<Rightarrow> if length rs > 0 then [ResourceBlock rs] else [])"

text \<open>
  The duck-typing test and what follows it in the HTTP server with retries: an open
  response with a body is consumed; one without a body is read as if it were a completion,
  which has neither choices nor search results.
\<close>

definition consumed_content ::
  "chunk_parser \<Rightarrow> retry_http_result \<Rightarrow> stream_error + content_block list" where
  "consumed_content JSON_parse result =
     (case result of
        OpenResponse response \<Rightarrow>
          (case body response of
             Some b \<Rightarrow>
               (case consumePerplexityStream JSON_parse (Some b) of
                  Inl e \<Rightarrow> Inl e
                | Inr consumedResult \<Rightarrow> Inr (completion_blocks consumedResult))
           | None \<Rightarrow> Inr [])
      | Completion perplexityResponse \<Rightarrow> Inr (completion_blocks perplexityResponse))"

text \<open>\<^verbatim>\<open>app.post('/mcp/call')\<close> of the HTTP server with retries (1529-1645), on \<^verbatim>\<open>req.body\<close>.\<close>

definition mcp_call_retry_http ::
  "chunk_parser \<Rightarrow> upstream \<Rightarrow> jsval \<Rightarrow> http_response \<times> request_body list" where
  "mcp_call_retry_http JSON_parse net req_body =
     (case get_prop req_body ''name'' of
        None \<Rightarrow> (Reply 500 (ErrorPayload TypeError), [])
      | Some name \<Rightarrow>
          (let args = field req_body ''arguments'' in
           if \<not> truthy args then (Reply 400 (ErrorPayload NoArgumentsProvided), [])
           else if name = JStr ''perplexity-completions'' then
             (if typeof (field args ''query'') \<noteq> ''string''
              then (Reply 400 (ErrorPayload InvalidQuery), [])
              else (case performSearch_retry_http net (field args ''query'')
                           (options_retry_http (shouldStream args) args) of
                      (Inl error, posted) \<Rightarrow>
                        (Reply 500 (ErrorPayload (SearchFailed error)), posted)
                    | (Inr result, posted) \<Rightarrow>
                        (case consumed_content JSON_parse result of
                           Inl e \<Rightarrow> (Reply 500 (ErrorPayload (SearchFailed (StreamError e))), posted)
                         | Inr bs \<Rightarrow> (Reply 200 (ToolPayload bs False), posted))))
           else (Reply 400 (ErrorPayload (UnknownTool name)), [])))"

text \<open>
  \<^verbatim>\<open>app.post('/mcp')\<close> of the HTTP server with retries (1354-1519). The route does not test
  the query; it logs \<^verbatim>\<open>query.substring(0, 50)\<close> before the search, which throws a TypeError
  inside the inner \<^verbatim>\<open>try\<close> unless the query is a string.
\<close>

definition mcp_retry_http ::
  "chunk_parser \<Rightarrow> upstream \<Rightarrow> jsval \<Rightarrow> http_response \<times> request_body list" where
  "mcp_retry_http JSON_parse net req_body =
     (case get_prop req_body ''method'' of
        None \<Rightarrow> (Reply 400 (RpcError JNull (- 32700) ParseError), [])
      | Some method \<Rightarrow>
          (let params = field req_body ''params''; id = field req_body ''id'' in
           if method = JStr ''initialize'' then (Reply 200 (RpcInitialize id), [])
           else if method = JStr ''tools/list'' then (Reply 200 (RpcToolsList id), [])
           else if method = JStr ''tools/call'' then
             (case get_prop params ''name'' of
                None \<Rightarrow> (Reply 400 (RpcError JNull (- 32700) ParseError), [])
              | Some name \<Rightarrow>
                  (let args = field params ''arguments'' in
                   if name = JStr ''perplexity-completions'' then
                     (case get_prop args ''query'' of
                        None \<Rightarrow> (Reply 200 (RpcError id (- 32603) TypeError), [])
                      | Some query \<Rightarrow>
                          if typeof query \<noteq> ''string''
                          then (Reply 200 (RpcError id (- 32603) TypeError), [])
                          else (case performSearch_retry_http net query (options_retry_http True args) of
                                  (Inl error, posted) \<Rightarrow>
                                    (Reply 200 (RpcError id (- 32603) (SearchFailed error)), posted)
                                | (Inr result, posted) \<Rightarrow>
                                    (case consumed_content JSON_parse result of
                                       Inl e \<Rightarrow>
                                         (Reply 200 (RpcError id (- 32603) (SearchFailed (StreamError e))),
                                          posted)
                                     | Inr bs \<Rightarrow> (Reply 200 (RpcResult id bs), posted))))
                   else (Reply 200 (RpcError id (- 32601) (UnknownTool name)), [])))
           else (Reply 200 (RpcError (if truthy id then id else JNull) (- 32601) (UnknownMethod method)),
                 [])))"

section \<open>server.ts: the live re-stream and the routes\<close>

text \<open>
  \<^verbatim>\<open>streamPerplexityToSSE\<close> (server.ts 334-414). Its variables are the search results seen
  so far and the events written to the client. At the sentinel the function writes the
  citations (when it has any) and the final marker, ends the response and returns; the
  same happens when the body ends without a sentinel. A failed read writes an error event.
\<close>

record sse_vars =
  sse_searchResults :: "SearchResult list option"
  written :: "client_event list"

definition sse_chunk :: "sse_vars \<Rightarrow> StreamChunk \<Rightarrow> sse_vars" where
  "sse_chunk s chunk =
     (let s1 = (case chunk_delta chunk of
                  None \<Rightarrow> s
                | Some d \<Rightarrow> if d \<noteq> [] then s\<lparr>written := written s @ [ContentEvent d]\<rparr> else s)
      in (case search_results chunk of
            None \<Rightarrow> s1
          | Some rs \<Rightarrow> s1\<lparr>sse_searchResults := Some rs\<rparr>))"

definition sse_try :: "chunk_parser \<Rightarrow> sse_vars \<Rightarrow> string \<Rightarrow> sse_vars" where
  "sse_try JSON_parse s data =
     (case JSON_parse data of None \<Rightarrow> s | Some chunk \<Rightarrow> sse_chunk s chunk)"

definition sse_finish :: "sse_vars \<Rightarrow> client_event list" where
  "sse_finish s =
     written s
     @ (case sse_searchResults s of
          None \<Rightarrow> []
        | Some rs \<Rightarrow> [CitationsEvent (formatSearchResults rs)])
     @ [DoneMarker]"

text \<open>The \<^verbatim>\<open>for\<close> and \<^verbatim>\<open>while\<close> loops: \<open>Inl\<close> when the function has returned at the sentinel.\<close>

fun sse_for_lines :: "chunk_parser \<Rightarrow> sse_vars \<Rightarrow> string list \<Rightarrow> client_event list + sse_vars" where
  "sse_for_lines JSON_parse s [] = Inr s"
| "sse_for_lines JSON_parse s (line # rest) =
     (if js_trim line = [] \<or> \<not> startsWith line ''data: '' then sse_for_lines JSON_parse s rest
      else (let data = drop 6 line in
            if data = ''[DONE]'' then Inl (sse_finish s)
            else sse_for_lines JSON_parse (sse_try JSON_parse s data) rest))"

fun sse_read_loop ::
  "chunk_parser \<Rightarrow> sse_vars \<times> string \<Rightarrow> string list \<Rightarrow> client_event list + sse_vars" where
  "sse_read_loop JSON_parse (s, buffer) [] = Inr s"
| "sse_read_loop JSON_parse (s, buffer) (chunk # reads) =
     (let lines = split_nl (buffer @ chunk)
      in (case sse_for_lines JSON_parse s (butlast lines) of
            Inl events \<Rightarrow> Inl events
          | Inr s' \<Rightarrow> sse_read_loop JSON_parse (s', last lines) reads))"

definition streamPerplexityToSSE :: "chunk_parser \<Rightarrow> Response \<Rightarrow> http_response" where
  "streamPerplexityToSSE JSON_parse perplexityResponse =
     (case body perplexityResponse of
        None \<Rightarrow> Unhandled BodyNotReadable
      | Some (reads, ending) \<Rightarrow>
          (case sse_read_loop JSON_parse (\<lparr>sse_searchResults = None, written = []\<rparr>, []) reads of
             Inl events \<Rightarrow> Reply 200 (EventStream events)
           | Inr s \<Rightarrow>
               (case ending of
                  Done \<Rightarrow> Reply 200 (EventStream (sse_finish s))
                | ReadFails e \<Rightarrow> Reply 200 (EventStream (written s @ [ErrorEvent (ReadError e)])))))"

text \<open>
  What follows \<^verbatim>\<open>performSearch\<close> in both routes of server.ts:
  \<^verbatim>\<open>shouldStream && result instanceof Response\<close> selects the live re-stream, anything else
  is sent as a text.
\<close>

definition server_text :: "server_result \<Rightarrow> content_block" where
  "server_text result = (case result of Text t \<Rightarrow> TextBlock t | Open response \<Rightarrow> NotAString)"

text \<open>\<^verbatim>\<open>app.post('/mcp/call')\<close> of server.ts (615-679), on \<^verbatim>\<open>req.body\<close>.\<close>

definition mcp_call_server ::
  "chunk_parser \<Rightarrow> upstream \<Rightarrow> jsval \<Rightarrow> http_response \<times> request_body list" where
  "mcp_call_server JSON_parse net req_body =
     (case get_prop req_body ''name'' of
        None \<Rightarrow> (Reply 500 (ErrorPayload TypeError), [])
      | Some name \<Rightarrow>
          (let args = field req_body ''arguments'' in
           if \<not> truthy args then (Reply 400 (ErrorPayload NoArgumentsProvided), [])
           else if name = JStr ''perplexity-completions'' then
             (if typeof (field args ''query'') \<noteq> ''string''
              then (Reply 400 (ErrorPayload InvalidQuery), [])
              else (case performSearch_server net (field args ''query'') (options_server args) of
                      (Inl error, posted) \<Rightarrow>
                        (Reply 500 (ErrorPayload (SearchFailed error)), posted)
                    | (Inr (Open response), posted) \<Rightarrow>
                        if shouldStream args then (streamPerplexityToSSE JSON_parse response, posted)
                        else (Reply 200 (ToolPayload [server_text (Open response)] False), posted)
                    | (Inr result, posted) \<Rightarrow>
                        (Reply 200 (ToolPayload [server_text result] False), posted)))
           else (Reply 400 (ErrorPayload (UnknownTool name)), [])))"

text \<open>
  \<^verbatim>\<open>app.post('/mcp')\<close> of server.ts (488-605). The \<^verbatim>\<open>tools/call\<close> branch destructures the
  arguments and calls \<^verbatim>\<open>performSearch\<close> with the query as it is: nothing tests it.
\<close>

definition mcp_server ::
  "chunk_parser \<Rightarrow> upstream \<Rightarrow> jsval \<Rightarrow> http_response \<times> request_body list" where
  "mcp_server JSON_parse net req_body =
     (case get_prop req_body ''method'' of
        None \<Rightarrow> (Reply 400 (RpcError JNull (- 32700) ParseError), [])
      | Some method \<Rightarrow>
          (let params = field req_body ''params''; id = field req_body ''id'' in
           if method = JStr ''initialize'' then (Reply 200 (RpcInitialize id), [])
           else if method = JStr ''tools/list'' then (Reply 200 (RpcToolsList id), [])
           else if method = JStr ''tools/call'' then
             (case get_prop params ''name'' of
                None \<Rightarrow> (Reply 400 (RpcError JNull (- 32700) ParseError), [])
              | Some name \<Rightarrow>
                  (let args = field params ''arguments'' in
                   if name = JStr ''perplexity-completions'' then
                     (case get_prop args ''query'' of
                        None \<Rightarrow> (Reply 200 (RpcError id (- 32603) TypeError), [])
                      | Some query \<Rightarrow>
                          (case performSearch_server net query (options_server args) of
                             (Inl error, posted) \<Rightarrow>
                               (Reply 200 (RpcError id (- 32603) (SearchFailed error)), posted)
                           | (Inr (Open response), posted) \<Rightarrow>
                               if shouldStream args
                               then (streamPerplexityToSSE JSON_parse response, posted)
                               else (Reply 200 (RpcResult id [server_text (Open response)]), posted)
                           | (Inr result, posted) \<Rightarrow>
                               (Reply 200 (RpcResult id [server_text result]), posted)))
                   else (Reply 200 (RpcError id (- 32601) (UnknownTool name)), [])))
           else (Reply 200 (RpcError (if truthy id then id else JNull) (- 32601) (UnknownMethod method)),
                 [])))"

section \<open>Sample requests and networks\<close>

definition sample_response :: "nat \<Rightarrow> body_stream option \<Rightarrow> Response" where
  "sample_response code b =
     \<lparr>status = code, statusText = [], text_body = Some [], json_body = None, body = b\<rparr>"

text \<open>A network whose first call answers with the first status and every later call with the second.\<close>

definition sample_net :: "nat \<Rightarrow> nat \<Rightarrow> upstream" where
  "sample_net first later =
     \<lparr>fetch = (\<lambda>n. Responds (sample_response (if n = 0 then first else later) None)),
      aborted = (\<lambda>n. False)\<rparr>"

text \<open>A network that is down, and one that answers 200 with the given body.\<close>

definition net_down :: upstream where
  "net_down = \<lparr>fetch = (\<lambda>n. Rejects (FetchFailed ''ECONNREFUSED'')), aborted = (\<lambda>n. False)\<rparr>"

definition net_streaming :: "string list \<Rightarrow> upstream" where
  "net_streaming reads =
     \<lparr>fetch = (\<lambda>n. Responds (sample_response 200 (Some (reads, Done)))), aborted = (\<lambda>n. False)\<rparr>"

definition tool_name :: jsval where
  "tool_name = JStr ''perplexity-completions''"

text \<open>
  Sample arguments: optional arguments of the wrong types, numbers out of range, the
  arguments that \<^verbatim>\<open>JSON.parse\<close> reads from \<^verbatim>\<open>{"query": "q", "max_tokens": 1e400}\<close>, and
  three requests.
\<close>

definition sample_args :: jsval where
  "sample_args =
     JObj [(''query'', JStr ''q''), (''model'', JNum (Finite 7)), (''stream'', JStr ''yes''),
           (''search_mode'', JBool True), (''recency_filter'', JNull),
           (''reasoning_effort'', JArr []), (''max_tokens'', JStr ''many''),
           (''temperature'', JObj [])]"

definition sample_args_out_of_range :: jsval where
  "sample_args_out_of_range =
     JObj [(''query'', JStr ''q''), (''max_tokens'', JNum (Finite 100000)), (''temperature'', JNum (Finite 5))]"

definition sample_args_overflow :: jsval where
  "sample_args_overflow = JObj [(''query'', JStr ''q''), (''max_tokens'', JNum PosInfinity)]"




section \<open>Notions used to state the properties of the decode loop\<close>

text \<open>
  The tests of one round of \<open>for_lines\<close> on a single line: \<open>line_skipped\<close> is the
  \<^verbatim>\<open>continue\<close> test, \<open>is_done\<close> the \<^verbatim>\<open>break\<close> test, and \<open>line_step\<close> what the round does to
  the variables when it goes on to the next line. A line is \<open>inert\<close> when it changes no
  variables; a list of lines is \<open>settled\<close> when only inert lines follow its first sentinel.
\<close>

definition line_skipped :: "string \<Rightarrow> bool" where
  "line_skipped line = (js_trim line = [] \<or> \<not> startsWith line ''data: '')"

definition is_done :: "string \<Rightarrow> bool" where
  "is_done line = (\<not> line_skipped line \<and> drop 6 line = ''[DONE]'')"

definition line_step :: "('a \<Rightarrow> string \<Rightarrow> 'a) \<Rightarrow> 'a \<Rightarrow> string \<Rightarrow> 'a" where
  "line_step frame a line =
     (if line_skipped line \<or> drop 6 line = ''[DONE]'' then a else frame a (drop 6 line))"

definition inert :: "('a \<Rightarrow> string \<Rightarrow> 'a) \<Rightarrow> string \<Rightarrow> bool" where
  "inert frame line = (\<forall>a. line_step frame a line = a)"

definition settled :: "('a \<Rightarrow> string \<Rightarrow> 'a) \<Rightarrow> string list \<Rightarrow> bool" where
  "settled frame ls = (\<forall>l \<in> set (dropWhile (\<lambda>l. \<not> is_done l) ls). inert frame l)"

text \<open>
  The wire format of the upstream stream: one event is the line \<^verbatim>\<open>data: <payload>\<close> and a
  blank line; \<open>sse_stream\<close> is a sequence of events followed by the completion sentinel
  \<^verbatim>\<open>data: [DONE]\<close>. \<open>payload_delta\<close> is the text delta an event carries (none when its
  payload does not parse or its chunk has no delta), \<open>frame_lines\<close> the lines of the events.
\<close>

definition sse_frame :: "string \<Rightarrow> string" where
  "sse_frame payload = ''data: '' @ payload @ [nl, nl]"

definition sse_frames :: "string list \<Rightarrow> string" where
  "sse_frames payloads = concat (map sse_frame payloads)"

definition sse_stream :: "string list \<Rightarrow> string" where
  "sse_stream payloads = sse_frames payloads @ sse_frame ''[DONE]''"

definition payload_delta :: "chunk_parser \<Rightarrow> string \<Rightarrow> string" where
  "payload_delta JSON_parse payload =
     (case JSON_parse payload of
        None \<Rightarrow> []
      | Some chunk \<Rightarrow> (case chunk_delta chunk of None \<Rightarrow> [] | Some d \<Rightarrow> d))"

definition frame_lines :: "string list \<Rightarrow> string list" where
  "frame_lines payloads = concat (map (\<lambda>p. [''data: '' @ p, []]) payloads)"

text \<open>
  The citation lists that the records of a decoded sequence carry, in arrival order, and
  the final list as the specification words it: the list of the last record that carries a
  non-empty one.
\<close>

definition citation_lists :: "StreamChunk list \<Rightarrow> SearchResult list list" where
  "citation_lists chunks = List.map_filter search_results chunks"

definition spec_final_citations :: "StreamChunk list \<Rightarrow> SearchResult list option" where
  "spec_final_citations chunks =
     (case rev (filter (\<lambda>rs. rs \<noteq> []) (citation_lists chunks)) of
        [] \<Rightarrow> None
      | rs # _ \<Rightarrow> Some rs)"

text \<open>
  Sample data on which the model is evaluated. \<open>sample_parse\<close> is \<^verbatim>\<open>JSON.parse\<close> on a
  handful of payloads: each payload stands for the JSON text of the chunk beside it, and
  every other payload (\<^verbatim>\<open>{oops\<close>, say) is malformed.
\<close>

definition sample_source :: "string \<Rightarrow> SearchResult" where
  "sample_source t = \<lparr>title = t, url = ''https://example.com'', snippet = None\<rparr>"

definition sample_chunk :: "string option \<Rightarrow> SearchResult list option \<Rightarrow> StreamChunk" where
  "sample_chunk d rs =
     \<lparr>chunk_id = ''c1'', chunk_model = ''sonar'',
      choices = [\<lparr>delta = \<lparr>delta_content = d, delta_role = None\<rparr>,
                  choice_index = 0, choice_finish_reason = None\<rparr>],
      search_results = rs, usage = None\<rparr>"

definition sample_parse :: chunk_parser where
  "sample_parse data =
     (if data = ''{hello}'' then Some (sample_chunk (Some ''Hello'') None)
      else if data = ''{world}'' then Some (sample_chunk (Some '' world'') None)
      else if data = ''{sources}'' then Some (sample_chunk None (Some [sample_source ''A'']))
      else if data = ''{no sources}'' then Some (sample_chunk None (Some []))
      else None)"

definition sample_reads :: "string list" where
  "sample_reads =
     [''data: {he'', ''llo}'' @ [nl, nl] @ ''data: {world}'' @ [nl], [nl] @ ''data: [DO'', ''NE]'' @ [nl], [nl]]"

definition sample_reads_bad :: "string list" where
  "sample_reads_bad =
     [''data: {hello}'' @ [nl, nl] @ ''data: {oo'', ''ps'' @ [nl, nl] @ ''data: {world}'' @ [nl, nl] @ ''da'',
      ''ta: {sources}'' @ [nl, nl] @ ''data: [DONE]'' @ [nl, nl]]"

section \<open>Properties of the decode loop\<close>

lemma split_nl_not_Nil: "split_nl s \<noteq> []"
  by (induction s) (auto split: list.splits)

lemma split_nl_append:
  "split_nl (a @ b) = butlast (split_nl a) @ split_nl (last (split_nl a) @ b)"
proof (induction a)
  case Nil
  then show ?case by simp
next
  case (Cons c cs)
  show ?case
  proof (cases "c = nl")
    case True
    then show ?thesis using Cons split_nl_not_Nil[of cs] by simp
  next
    case False
    obtain l ls where sp: "split_nl cs = l # ls"
      using split_nl_not_Nil[of cs] by (cases "split_nl cs") auto
    show ?thesis
    proof (cases ls)
      case Nil
      then show ?thesis using False sp Cons by simp
    next
      case (Cons l' ls')
      then show ?thesis using False sp Cons.IH by simp
    qed
  qed
qed

lemma split_nl_line:
  "nl \<notin> set l \<Longrightarrow> split_nl (l @ nl # s) = l # split_nl s"
  by (induction l) auto

lemma split_nl_no_nl: "nl \<notin> set l \<Longrightarrow> split_nl l = [l]"
  by (induction l) auto

lemma last_split_nl_no_nl: "nl \<notin> set (last (split_nl s))"
  by (induction s) (auto split: list.splits simp: split_nl_not_Nil)

lemma for_lines_takeWhile:
  "for_lines frame a ls = foldl (line_step frame) a (takeWhile (\<lambda>l. \<not> is_done l) ls)"
  by (induction ls arbitrary: a) (auto simp: line_step_def is_done_def line_skipped_def Let_def)

lemma foldl_inert: "\<forall>l \<in> set ls. inert frame l \<Longrightarrow> foldl (line_step frame) a ls = a"
  by (induction ls arbitrary: a) (auto simp: inert_def)

lemma for_lines_settled:
  assumes "settled frame ls"
  shows "for_lines frame a ls = foldl (line_step frame) a ls"
proof -
  have "foldl (line_step frame) a ls
      = foldl (line_step frame) a (takeWhile (\<lambda>l. \<not> is_done l) ls @ dropWhile (\<lambda>l. \<not> is_done l) ls)"
    by simp
  also have "\<dots> = foldl (line_step frame) a (takeWhile (\<lambda>l. \<not> is_done l) ls)"
    using assms unfolding settled_def foldl_append by (rule foldl_inert)
  finally show ?thesis by (simp add: for_lines_takeWhile)
qed

lemma set_dropWhile_append1: "set (dropWhile P xs) \<subseteq> set (dropWhile P (xs @ ys))"
  by (induction xs) auto

lemma set_dropWhile_append2: "set (dropWhile P ys) \<subseteq> set (dropWhile P (xs @ ys))"
  by (induction xs) (auto dest: set_dropWhileD)

lemma settled_append1: "settled frame (xs @ ys) \<Longrightarrow> settled frame xs"
  unfolding settled_def using set_dropWhile_append1[of _ xs ys] by blast

lemma settled_append2: "settled frame (xs @ ys) \<Longrightarrow> settled frame ys"
  unfolding settled_def using set_dropWhile_append2[of _ ys xs] by blast

lemma butlast_split_nl_append:
  "butlast (split_nl (a @ b)) = butlast (split_nl a) @ butlast (split_nl (last (split_nl a) @ b))"
  by (subst split_nl_append) (simp add: butlast_append split_nl_not_Nil)

lemma last_split_nl_append:
  "last (split_nl (a @ b)) = last (split_nl (last (split_nl a) @ b))"
  by (subst split_nl_append) (simp add: split_nl_not_Nil)

lemma read_loop_fold:
  assumes "settled frame (butlast (split_nl (buffer @ concat reads)))"
      and "nl \<notin> set buffer"
  shows "read_loop frame (a, buffer) reads
       = (foldl (line_step frame) a (butlast (split_nl (buffer @ concat reads))),
          last (split_nl (buffer @ concat reads)))"
  using assms
proof (induction reads arbitrary: a buffer)
  case Nil
  then show ?case by (simp add: split_nl_no_nl)
next
  case (Cons c cs)
  let ?lines = "split_nl (buffer @ c)"
  have eq: "buffer @ concat (c # cs) = (buffer @ c) @ concat cs" by simp
  have s1: "settled frame (butlast ?lines)"
    and s2: "settled frame (butlast (split_nl (last ?lines @ concat cs)))"
    using Cons.prems(1) unfolding eq butlast_split_nl_append[of "buffer @ c" "concat cs"]
    by (auto dest: settled_append1 settled_append2)
  have "read_loop frame (a, buffer) (c # cs)
      = read_loop frame (for_lines frame a (butlast ?lines), last ?lines) cs"
    by (simp add: Let_def)
  also have "\<dots> = (foldl (line_step frame) (for_lines frame a (butlast ?lines))
                      (butlast (split_nl (last ?lines @ concat cs))),
                   last (split_nl (last ?lines @ concat cs)))"
    by (rule Cons.IH[OF s2 last_split_nl_no_nl])
  also have "\<dots> = (foldl (line_step frame) a (butlast (split_nl (buffer @ concat (c # cs)))),
                   last (split_nl (buffer @ concat (c # cs))))"
    unfolding eq butlast_split_nl_append[of "buffer @ c" "concat cs"]
      last_split_nl_append[of "buffer @ c" "concat cs"]
    by (simp add: for_lines_settled[OF s1])
  finally show ?case .
qed

lemma startsWith_data_not_blank:
  assumes "startsWith line ''data: ''"
  shows "js_trim line \<noteq> []"
proof -
  have "length ''data: '' = 6" by simp
  then have "take 6 line = ''data: ''"
    using assms unfolding startsWith_def by (simp only:)
  then have "line = ''data: '' @ drop 6 line"
    using append_take_drop_id[of 6 line] by (simp only:)
  then obtain r where l: "line = CHR ''d'' # r" by simp
  have nd: "\<not> js_space CHR ''d''" by (simp add: js_space_def)
  have "dropWhile js_space line = line" using l nd by simp
  moreover have "dropWhile js_space (rev line) \<noteq> []"
    using l nd by (auto simp: dropWhile_eq_Nil_conv)
  ultimately show ?thesis by (simp add: js_trim_def)
qed

lemma line_skipped_iff: "line_skipped line \<longleftrightarrow> \<not> startsWith line ''data: ''"
  using startsWith_data_not_blank by (auto simp: line_skipped_def)

lemma line_skipped_data: "\<not> line_skipped (''data: '' @ p)"
  by (simp add: line_skipped_iff startsWith_def)

lemma line_skipped_Nil: "line_skipped []"
  by (simp add: line_skipped_iff startsWith_def)

lemma line_step_data:
  "p \<noteq> ''[DONE]'' \<Longrightarrow> line_step frame a (''data: '' @ p) = frame a p"
  using line_skipped_data[of p] by (simp add: line_step_def)

lemma line_step_Nil: "line_step frame a [] = a"
  using line_skipped_Nil by (simp add: line_step_def)

lemma is_done_data: "is_done (''data: '' @ p) \<longleftrightarrow> p = ''[DONE]''"
  using line_skipped_data[of p] by (simp add: is_done_def)

lemma not_is_done_Nil: "\<not> is_done []"
  using line_skipped_Nil by (simp add: is_done_def)

lemma inert_Nil: "inert frame []"
  by (simp add: inert_def line_step_Nil)

lemma inert_done: "inert frame ''data: [DONE]''"
  by (simp add: inert_def line_step_def)

lemma split_nl_sse_frame:
  "nl \<notin> set p \<Longrightarrow> split_nl (sse_frame p @ s) = (''data: '' @ p) # [] # split_nl s"
proof -
  assume "nl \<notin> set p"
  then have "nl \<notin> set (''data: '' @ p)" by simp
  then have "split_nl ((''data: '' @ p) @ nl # (nl # s)) = (''data: '' @ p) # split_nl (nl # s)"
    by (rule split_nl_line)
  then show ?thesis by (simp add: sse_frame_def)
qed

lemma split_nl_sse_frames:
  "\<forall>p \<in> set ps. nl \<notin> set p \<Longrightarrow> split_nl (sse_frames ps @ s) = frame_lines ps @ split_nl s"
proof (induction ps)
  case Nil
  then show ?case by (simp add: sse_frames_def frame_lines_def)
next
  case (Cons p ps)
  have "sse_frames (p # ps) @ s = sse_frame p @ (sse_frames ps @ s)"
    by (simp add: sse_frames_def)
  then show ?case using Cons split_nl_sse_frame[of p "sse_frames ps @ s"]
    by (simp add: frame_lines_def)
qed

lemma foldl_frame_lines:
  "\<forall>p \<in> set ps. p \<noteq> ''[DONE]'' \<Longrightarrow>
   foldl (line_step frame) a (frame_lines ps) = foldl frame a ps"
proof (induction ps arbitrary: a)
  case Nil
  then show ?case by (simp add: frame_lines_def)
next
  case (Cons p ps)
  then have "foldl (line_step frame) (frame a p) (frame_lines ps) = foldl frame (frame a p) ps"
    by simp
  then show ?case using Cons.prems
    by (simp add: frame_lines_def line_step_Nil line_step_data del: append.simps)
qed

lemma no_done_frame_lines:
  "\<forall>p \<in> set ps. p \<noteq> ''[DONE]'' \<Longrightarrow> \<forall>l \<in> set (frame_lines ps). \<not> is_done l"
  using is_done_data not_is_done_Nil by (auto simp: frame_lines_def simp del: append.simps)

lemma settled_frame_lines:
  assumes "\<forall>p \<in> set ps. p \<noteq> ''[DONE]''" and "\<forall>l \<in> set tail. inert frame l"
  shows "settled frame (frame_lines ps @ tail)"
proof -
  have "dropWhile (\<lambda>l. \<not> is_done l) (frame_lines ps @ tail) = dropWhile (\<lambda>l. \<not> is_done l) tail"
    using no_done_frame_lines[OF assms(1)] by (simp add: dropWhile_append)
  then show ?thesis using assms(2) unfolding settled_def by (auto dest: set_dropWhileD)
qed

lemma read_loop_frames:
  assumes wf: "\<forall>p \<in> set ps. nl \<notin> set p \<and> p \<noteq> ''[DONE]''"
      and tail: "tail = [] \<or> tail = sse_frame ''[DONE]''"
      and reads: "concat reads = sse_frames ps @ tail"
  shows "read_loop frame (a, []) reads = (foldl frame a ps, [])"
proof -
  have nlp: "\<forall>p \<in> set ps. nl \<notin> set p" and nd: "\<forall>p \<in> set ps. p \<noteq> ''[DONE]''"
    using wf by auto
  obtain tl where tl: "split_nl tail = tl @ [[]]" and itl: "\<forall>l \<in> set tl. inert frame l"
  proof (cases "tail = []")
    case True
    then have "split_nl tail = [] @ [[]]" by simp
    then show ?thesis using that[of "[]"] by simp
  next
    case False
    then have "tail = sse_frame ''[DONE]'' @ []" using tail by simp
    then have "split_nl tail = [''data: [DONE]'', []] @ [[]]"
      using split_nl_sse_frame[of "''[DONE]''" "[]"] by simp
    then show ?thesis using that[of "[''data: [DONE]'', []]"]
      by (simp add: inert_done inert_Nil)
  qed
  have sp: "split_nl ([] @ concat reads) = (frame_lines ps @ tl) @ [[]]"
    using split_nl_sse_frames[OF nlp, of tail] tl reads by simp
  have bl: "butlast (split_nl ([] @ concat reads)) = frame_lines ps @ tl"
    using sp by (simp only: butlast_snoc)
  have la: "last (split_nl ([] @ concat reads)) = []"
    using sp by (simp only: last_snoc)
  have st: "settled frame (butlast (split_nl ([] @ concat reads)))"
    unfolding bl by (rule settled_frame_lines[OF nd itl])
  have "read_loop frame (a, []) reads
      = (foldl (line_step frame) a (frame_lines ps @ tl), [])"
    using read_loop_fold[OF st, of a] unfolding bl la by simp
  also have "foldl (line_step frame) a (frame_lines ps @ tl) = foldl frame a ps"
    using foldl_frame_lines[OF nd] foldl_inert[OF itl] by simp
  finally show ?thesis .
qed

lemma read_loop_buffer:
  "nl \<notin> set buffer \<Longrightarrow>
   snd (read_loop frame (a, buffer) reads) = last (split_nl (buffer @ concat reads))"
proof (induction reads arbitrary: a buffer)
  case Nil
  then show ?case by (simp add: split_nl_no_nl)
next
  case (Cons c cs)
  have "snd (read_loop frame (a, buffer) (c # cs))
      = last (split_nl (last (split_nl (buffer @ c)) @ concat cs))"
    using Cons.IH[OF last_split_nl_no_nl] by (simp add: Let_def)
  then show ?case using last_split_nl_append[of "buffer @ c" "concat cs"] by simp
qed

lemma content_hsr_chunk:
  "content (hsr_chunk a c) = content a @ (case chunk_delta c of None \<Rightarrow> [] | Some d \<Rightarrow> d)"
  by (simp add: hsr_chunk_def Let_def split: option.splits)

lemma content_cps_chunk:
  "content (cps_chunk a c) = content a @ (case chunk_delta c of None \<Rightarrow> [] | Some d \<Rightarrow> d)"
  by (simp add: cps_chunk_def Let_def split: option.splits)

lemma content_hsr_frame:
  "content (hsr_frame P a p) = content a @ payload_delta P p"
  by (simp add: hsr_frame_def payload_delta_def content_hsr_chunk split: option.splits)

lemma content_cps_frame:
  "content (cps_frame P a p) = content a @ payload_delta P p"
  by (simp add: cps_frame_def payload_delta_def content_cps_chunk split: option.splits)

lemma content_foldl_hsr:
  "content (foldl (hsr_frame P) a ps) = content a @ concat (map (payload_delta P) ps)"
  by (induction ps arbitrary: a) (simp_all add: content_hsr_frame)

lemma content_foldl_cps:
  "content (foldl (cps_frame P) a ps) = content a @ concat (map (payload_delta P) ps)"
  by (induction ps arbitrary: a) (simp_all add: content_cps_frame)

lemma searchResults_foldl_hsr:
  "searchResults (foldl hsr_chunk a chunks)
   = (case rev (citation_lists chunks) of [] \<Rightarrow> searchResults a | rs # _ \<Rightarrow> Some rs)"
proof (induction chunks arbitrary: a rule: rev_induct)
  case Nil
  then show ?case by (simp add: citation_lists_def)
next
  case (snoc c cs)
  then show ?case
    by (cases "search_results c")
       (simp_all add: citation_lists_def map_filter_def hsr_chunk_def Let_def split: option.splits)
qed

lemma searchResults_foldl_cps:
  "searchResults (foldl cps_chunk a chunks)
   = (case searchResults a of
        Some rs \<Rightarrow> Some rs
      | None \<Rightarrow> (case citation_lists chunks of [] \<Rightarrow> None | rs # _ \<Rightarrow> Some rs))"
proof (induction chunks arbitrary: a)
  case Nil
  then show ?case by (simp add: citation_lists_def split: option.splits)
next
  case (Cons c cs)
  have step: "searchResults (cps_chunk a c)
      = (case searchResults a of Some rs \<Rightarrow> Some rs | None \<Rightarrow> search_results c)"
    by (simp add: cps_chunk_def Let_def split: option.splits)
  show ?case
    by (cases "search_results c"; cases "searchResults a")
       (simp_all add: Cons.IH step citation_lists_def)
qed

text \<open>
  Claim C2, as the code has it. The claim reads: the final citation list is the list of the
  last record that carries a non-empty citation list. In \<^verbatim>\<open>handleStreamingResponse\<close> the
  final list is the list of the last record that has the field at all, empty or not; in
  \<^verbatim>\<open>consumePerplexityStream\<close> it is the list of the first such record. In both, a record
  without the field leaves the list as it is, and when exactly one record of the sequence
  has the field (frame 3 of 5, say), the final list is that record's.
\<close>

theorem final_citations:
  "searchResults (foldl hsr_chunk hsr_init chunks)
     = (case rev (citation_lists chunks) of [] \<Rightarrow> None | rs # _ \<Rightarrow> Some rs)
   \<and> searchResults (foldl cps_chunk cps_init chunks)
     = (case citation_lists chunks of [] \<Rightarrow> None | rs # _ \<Rightarrow> Some rs)
   \<and> (search_results chunk = None \<longrightarrow>
        searchResults (hsr_chunk a chunk) = searchResults a
      \<and> searchResults (cps_chunk b chunk) = searchResults b)
   \<and> (citation_lists chunks = [rs] \<longrightarrow>
        searchResults (foldl hsr_chunk hsr_init chunks) = Some rs
      \<and> searchResults (foldl cps_chunk cps_init chunks) = Some rs)"
proof -
  have h: "searchResults (foldl hsr_chunk hsr_init chunks)
     = (case rev (citation_lists chunks) of [] \<Rightarrow> None | rs # _ \<Rightarrow> Some rs)"
    by (simp add: searchResults_foldl_hsr hsr_init_def split: list.splits)
  have c: "searchResults (foldl cps_chunk cps_init chunks)
     = (case citation_lists chunks of [] \<Rightarrow> None | rs # _ \<Rightarrow> Some rs)"
    by (simp add: searchResults_foldl_cps cps_init_def split: list.splits)
  have n: "search_results chunk = None \<longrightarrow>
        searchResults (hsr_chunk a chunk) = searchResults a
      \<and> searchResults (cps_chunk b chunk) = searchResults b"
    by (simp add: hsr_chunk_def cps_chunk_def Let_def split: option.splits)
  have o: "citation_lists chunks = [rs] \<longrightarrow>
        searchResults (foldl hsr_chunk hsr_init chunks) = Some rs
      \<and> searchResults (foldl cps_chunk cps_init chunks) = Some rs"
    by (simp add: h c)
  show ?thesis using h c n o by blast
qed

theorem final_citations_witness:
  "citation_lists [sample_chunk (Some ''a'') None, sample_chunk None None,
                   sample_chunk None (Some [sample_source ''A'']),
                   sample_chunk (Some ''b'') None, sample_chunk None None] = [[sample_source ''A'']]
   \<and> searchResults (foldl hsr_chunk hsr_init
        [sample_chunk (Some ''a'') None, sample_chunk None None,
         sample_chunk None (Some [sample_source ''A'']),
         sample_chunk (Some ''b'') None, sample_chunk None None]) = Some [sample_source ''A'']
   \<and> searchResults (foldl cps_chunk cps_init
        [sample_chunk (Some ''a'') None, sample_chunk None None,
         sample_chunk None (Some [sample_source ''A'']),
         sample_chunk (Some ''b'') None, sample_chunk None None]) = Some [sample_source ''A'']
   \<and> search_results (sample_chunk (Some ''b'') None) = None
   \<and> searchResults (hsr_chunk \<lparr>content = ''a'', searchResults = Some [sample_source ''A'']\<rparr>
        (sample_chunk (Some ''b'') None)) = Some [sample_source ''A'']"
proof -
  let ?cs = "[sample_chunk (Some ''a'') None, sample_chunk None None,
              sample_chunk None (Some [sample_source ''A'']),
              sample_chunk (Some ''b'') None, sample_chunk None None]"
  have l: "citation_lists ?cs = [[sample_source ''A'']]"
    by (simp add: citation_lists_def sample_chunk_def)
  have n: "search_results (sample_chunk (Some ''b'') None) = None"
    by (simp add: sample_chunk_def)
  show ?thesis
    using final_citations[of ?cs "sample_chunk (Some ''b'') None"
        "\<lparr>content = ''a'', searchResults = Some [sample_source ''A'']\<rparr>" cps_init
        "[sample_source ''A'']"] l n
    by simp
qed

text \<open>
  Claim C2 as stated fails: in \<^verbatim>\<open>handleStreamingResponse\<close> a later empty list replaces the
  list set before it, and in \<^verbatim>\<open>consumePerplexityStream\<close> a later non-empty list does not
  replace the first one.
\<close>

theorem citations_counterexample:
  "searchResults (foldl hsr_chunk hsr_init
      [sample_chunk None (Some [sample_source ''A'']), sample_chunk None (Some [])])
     \<noteq> spec_final_citations
      [sample_chunk None (Some [sample_source ''A'']), sample_chunk None (Some [])]
   \<and> searchResults (foldl cps_chunk cps_init
      [sample_chunk None (Some [sample_source ''A'']), sample_chunk None (Some [sample_source ''B''])])
     \<noteq> spec_final_citations
      [sample_chunk None (Some [sample_source ''A'']), sample_chunk None (Some [sample_source ''B''])]"
  by (simp add: spec_final_citations_def citation_lists_def sample_chunk_def
      sample_source_def hsr_chunk_def cps_chunk_def hsr_init_def cps_init_def chunk_delta_def Let_def)

lemma foldl_hsr_frame_chunks:
  "foldl (hsr_frame P) a ps = foldl hsr_chunk a (List.map_filter P ps)"
  by (induction ps arbitrary: a) (simp_all add: hsr_frame_def split: option.splits)

lemma foldl_cps_frame_chunks:
  "foldl (cps_frame P) a ps = foldl cps_chunk a (List.map_filter P ps)"
  by (induction ps arbitrary: a) (simp_all add: cps_frame_def split: option.splits)

lemma read_loop_sse_stream:
  assumes "\<forall>p \<in> set payloads. nl \<notin> set p \<and> p \<noteq> ''[DONE]''"
      and "concat reads = sse_stream payloads"
  shows "read_loop frame (a, []) reads = (foldl frame a payloads, [])"
proof -
  have tail: "sse_frame ''[DONE]'' = [] \<or> sse_frame ''[DONE]'' = sse_frame ''[DONE]''" by simp
  show ?thesis
    using read_loop_frames[OF assms(1) tail, of reads frame a] assms(2)
    by (simp add: sse_stream_def)
qed

text \<open>
  What the two functions return on a stream that ends in the sentinel:
  \<^verbatim>\<open>handleStreamingResponse\<close> the accumulated text followed by the formatted citations,
  \<^verbatim>\<open>consumePerplexityStream\<close> a completion whose single message holds the accumulated text,
  or the placeholder when that text is empty.
\<close>

lemma handleStreamingResponse_returns:
  assumes "\<forall>p \<in> set payloads. nl \<notin> set p \<and> p \<noteq> ''[DONE]''"
      and "concat reads = sse_stream payloads"
  shows "handleStreamingResponse P (Some (reads, Done))
       = Inr (concat (map (payload_delta P) payloads)
              @ (case rev (citation_lists (List.map_filter P payloads)) of
                   [] \<Rightarrow> []
                 | rs # _ \<Rightarrow> formatSearchResults rs))"
proof -
  have r: "read_loop (hsr_frame P) (hsr_init, []) reads = (foldl (hsr_frame P) hsr_init payloads, [])"
    by (rule read_loop_sse_stream[OF assms])
  have c: "content (foldl (hsr_frame P) hsr_init payloads) = concat (map (payload_delta P) payloads)"
    by (simp add: content_foldl_hsr hsr_init_def)
  have s: "searchResults (foldl (hsr_frame P) hsr_init payloads)
         = (case rev (citation_lists (List.map_filter P payloads)) of [] \<Rightarrow> None | rs # _ \<Rightarrow> Some rs)"
    by (simp add: foldl_hsr_frame_chunks searchResults_foldl_hsr hsr_init_def split: list.splits)
  show ?thesis
    unfolding handleStreamingResponse_def option.case prod.case r
    by (simp add: c s split: list.splits)
qed

lemma consumePerplexityStream_returns:
  assumes "\<forall>p \<in> set payloads. nl \<notin> set p \<and> p \<noteq> ''[DONE]''"
      and "concat reads = sse_stream payloads"
  shows "\<exists>r. consumePerplexityStream P (Some (reads, Done)) = Inr r
           \<and> map (\<lambda>c. msg_content (message c)) (cc_choices r)
               = [if concat (map (payload_delta P) payloads) = [] then ''No response generated.''
                  else concat (map (payload_delta P) payloads)]
           \<and> cc_search_results r
               = (case citation_lists (List.map_filter P payloads) of [] \<Rightarrow> None | rs # _ \<Rightarrow> Some rs)"
proof -
  have r: "read_loop (cps_frame P) (cps_init, []) reads = (foldl (cps_frame P) cps_init payloads, [])"
    by (rule read_loop_sse_stream[OF assms])
  have c: "content (foldl (cps_frame P) cps_init payloads) = concat (map (payload_delta P) payloads)"
    by (simp add: content_foldl_cps cps_init_def)
  have s: "searchResults (foldl (cps_frame P) cps_init payloads)
         = (case citation_lists (List.map_filter P payloads) of [] \<Rightarrow> None | rs # _ \<Rightarrow> Some rs)"
    by (simp add: foldl_cps_frame_chunks searchResults_foldl_cps cps_init_def split: list.splits)
  show ?thesis
    unfolding consumePerplexityStream_def option.case prod.case r
    by (simp add: c s)
qed

text \<open>
  Claim C1: for every sequence of events that ends in the completion sentinel, and every
  way of cutting its text into reads, the text accumulated by \<^verbatim>\<open>handleStreamingResponse\<close>
  and by \<^verbatim>\<open>consumePerplexityStream\<close> is the concatenation of the text deltas in arrival
  order, and the functions return it: \<^verbatim>\<open>handleStreamingResponse\<close> as the text of its
  result, before the section of the formatted citations (nothing follows it when no record
  carries citations); \<^verbatim>\<open>consumePerplexityStream\<close> as the content of the one message of its
  completion, where an empty text is replaced by the placeholder. After every read the
  buffer holds the text after the last newline. Neither result depends on where the reads
  are cut.
\<close>

theorem accumulated_text:
  assumes "\<forall>p \<in> set payloads. nl \<notin> set p \<and> p \<noteq> ''[DONE]''"
      and "concat reads = sse_stream payloads"
  shows "content (fst (read_loop (hsr_frame JSON_parse) (hsr_init, []) reads))
           = concat (map (payload_delta JSON_parse) payloads)
       \<and> content (fst (read_loop (cps_frame JSON_parse) (cps_init, []) reads))
           = concat (map (payload_delta JSON_parse) payloads)
       \<and> handleStreamingResponse JSON_parse (Some (reads, Done))
           = Inr (concat (map (payload_delta JSON_parse) payloads)
                  @ (case rev (citation_lists (List.map_filter JSON_parse payloads)) of
                       [] \<Rightarrow> []
                     | rs # _ \<Rightarrow> formatSearchResults rs))
       \<and> (\<exists>r. consumePerplexityStream JSON_parse (Some (reads, Done)) = Inr r
            \<and> map (\<lambda>c. msg_content (message c)) (cc_choices r)
                = [if concat (map (payload_delta JSON_parse) payloads) = []
                   then ''No response generated.''
                   else concat (map (payload_delta JSON_parse) payloads)]
            \<and> cc_search_results r
                = (case citation_lists (List.map_filter JSON_parse payloads) of
                     [] \<Rightarrow> None
                   | rs # _ \<Rightarrow> Some rs))
       \<and> (\<forall>k. snd (read_loop (hsr_frame JSON_parse) (hsr_init, []) (take k reads))
                 = last (split_nl (concat (take k reads)))
              \<and> snd (read_loop (cps_frame JSON_parse) (cps_init, []) (take k reads))
                 = last (split_nl (concat (take k reads))))
       \<and> (\<forall>reads'. concat reads' = concat reads \<longrightarrow>
            handleStreamingResponse JSON_parse (Some (reads', Done))
              = handleStreamingResponse JSON_parse (Some (reads, Done))
          \<and> consumePerplexityStream JSON_parse (Some (reads', Done))
              = consumePerplexityStream JSON_parse (Some (reads, Done)))"
proof -
  have any: "read_loop frame (a, []) rs = (foldl frame a payloads, [])"
    if "concat rs = concat reads" for frame :: "'a \<Rightarrow> string \<Rightarrow> 'a" and a rs
    using read_loop_sse_stream[OF assms(1), of rs frame a] that assms(2) by simp
  have h: "read_loop (hsr_frame JSON_parse) (hsr_init, []) reads
             = (foldl (hsr_frame JSON_parse) hsr_init payloads, [])"
    by (rule any) simp
  have c: "read_loop (cps_frame JSON_parse) (cps_init, []) reads
             = (foldl (cps_frame JSON_parse) cps_init payloads, [])"
    by (rule any) simp
  have b: "snd (read_loop frame (a, []) (take k reads)) = last (split_nl (concat (take k reads)))"
    for frame :: "'a \<Rightarrow> string \<Rightarrow> 'a" and a k
    using read_loop_buffer[of "[]" frame a "take k reads"] by simp
  have 1: "content (fst (read_loop (hsr_frame JSON_parse) (hsr_init, []) reads))
           = concat (map (payload_delta JSON_parse) payloads)"
    by (subst h) (simp add: content_foldl_hsr hsr_init_def)
  have 2: "content (fst (read_loop (cps_frame JSON_parse) (cps_init, []) reads))
           = concat (map (payload_delta JSON_parse) payloads)"
    by (subst c) (simp add: content_foldl_cps cps_init_def)
  have 3: "handleStreamingResponse JSON_parse (Some (reads, Done))
           = Inr (concat (map (payload_delta JSON_parse) payloads)
                  @ (case rev (citation_lists (List.map_filter JSON_parse payloads)) of
                       [] \<Rightarrow> []
                     | rs # _ \<Rightarrow> formatSearchResults rs))"
    by (rule handleStreamingResponse_returns[OF assms])
  have 4: "\<exists>r. consumePerplexityStream JSON_parse (Some (reads, Done)) = Inr r
            \<and> map (\<lambda>c. msg_content (message c)) (cc_choices r)
                = [if concat (map (payload_delta JSON_parse) payloads) = []
                   then ''No response generated.''
                   else concat (map (payload_delta JSON_parse) payloads)]
            \<and> cc_search_results r
                = (case citation_lists (List.map_filter JSON_parse payloads) of
                     [] \<Rightarrow> None
                   | rs # _ \<Rightarrow> Some rs)"
    by (rule consumePerplexityStream_returns[OF assms])
  have 5: "\<forall>k. snd (read_loop (hsr_frame JSON_parse) (hsr_init, []) (take k reads))
                 = last (split_nl (concat (take k reads)))
              \<and> snd (read_loop (cps_frame JSON_parse) (cps_init, []) (take k reads))
                 = last (split_nl (concat (take k reads)))"
    using b[of "hsr_frame JSON_parse" hsr_init] b[of "cps_frame JSON_parse" cps_init] by blast
  have 6: "handleStreamingResponse JSON_parse (Some (reads', Done))
              = handleStreamingResponse JSON_parse (Some (reads, Done))
          \<and> consumePerplexityStream JSON_parse (Some (reads', Done))
              = consumePerplexityStream JSON_parse (Some (reads, Done))"
    if r: "concat reads' = concat reads" for reads'
  proof -
    have "read_loop (hsr_frame JSON_parse) (hsr_init, []) reads'
        = read_loop (hsr_frame JSON_parse) (hsr_init, []) reads"
      by (simp only: h any[OF r])
    moreover have "read_loop (cps_frame JSON_parse) (cps_init, []) reads'
        = read_loop (cps_frame JSON_parse) (cps_init, []) reads"
      by (simp only: c any[OF r])
    ultimately show ?thesis
      by (simp only: handleStreamingResponse_def consumePerplexityStream_def option.case prod.case)
  qed
  have 7: "\<forall>reads'. concat reads' = concat reads \<longrightarrow>
            handleStreamingResponse JSON_parse (Some (reads', Done))
              = handleStreamingResponse JSON_parse (Some (reads, Done))
          \<and> consumePerplexityStream JSON_parse (Some (reads', Done))
              = consumePerplexityStream JSON_parse (Some (reads, Done))"
    using 6 by blast
  show ?thesis using 1 2 3 4 5 7 by (intro conjI)
qed

theorem accumulated_text_witness:
  "concat sample_reads_bad = sse_stream [''{hello}'', ''{oops'', ''{world}'', ''{sources}'']
   \<and> content (fst (read_loop (hsr_frame sample_parse) (hsr_init, []) sample_reads_bad)) = ''Hello world''
   \<and> content (fst (read_loop (cps_frame sample_parse) (cps_init, []) sample_reads_bad)) = ''Hello world''
   \<and> handleStreamingResponse sample_parse (Some (sample_reads_bad, Done))
       = Inr (''Hello world'' @ formatSearchResults [sample_source ''A''])
   \<and> (\<exists>r. consumePerplexityStream sample_parse (Some (sample_reads_bad, Done)) = Inr r
         \<and> map (\<lambda>c. msg_content (message c)) (cc_choices r) = [''Hello world'']
         \<and> cc_search_results r = Some [sample_source ''A''])
   \<and> snd (read_loop (hsr_frame sample_parse) (hsr_init, []) (take 1 sample_reads_bad)) = ''data: {oo''
   \<and> handleStreamingResponse sample_parse (Some ([concat sample_reads_bad], Done))
       = handleStreamingResponse sample_parse (Some (sample_reads_bad, Done))
   \<and> concat sample_reads = sse_stream [''{hello}'', ''{world}'']
   \<and> handleStreamingResponse sample_parse (Some (sample_reads, Done)) = Inr ''Hello world''"
proof -
  let ?ps = "[''{hello}'', ''{oops'', ''{world}'', ''{sources}'']"
  have wf: "\<forall>p \<in> set ?ps. nl \<notin> set p \<and> p \<noteq> ''[DONE]''" by simp
  have eq: "concat sample_reads_bad = sse_stream ?ps"
    by (simp add: sample_reads_bad_def sse_stream_def sse_frames_def sse_frame_def)
  have d: "concat (map (payload_delta sample_parse) ?ps) = ''Hello world''"
    by (simp add: payload_delta_def sample_parse_def sample_chunk_def chunk_delta_def)
  have l: "citation_lists (List.map_filter sample_parse ?ps) = [[sample_source ''A'']]"
    by (simp add: citation_lists_def sample_parse_def sample_chunk_def)
  have k: "last (split_nl (concat (take 1 sample_reads_bad))) = ''data: {oo''"
    by (simp add: sample_reads_bad_def)
  have c1: "concat [concat sample_reads_bad] = concat sample_reads_bad" by simp
  note t = accumulated_text[OF wf eq, of sample_parse, unfolded d l]
  note t1 = t[THEN conjunct1]
  note t2 = t[THEN conjunct2, THEN conjunct1]
  have t3: "handleStreamingResponse sample_parse (Some (sample_reads_bad, Done))
       = Inr (''Hello world'' @ formatSearchResults [sample_source ''A''])"
    using t[THEN conjunct2, THEN conjunct2, THEN conjunct1] by simp
  have t4: "\<exists>r. consumePerplexityStream sample_parse (Some (sample_reads_bad, Done)) = Inr r
         \<and> map (\<lambda>c. msg_content (message c)) (cc_choices r) = [''Hello world'']
         \<and> cc_search_results r = Some [sample_source ''A'']"
    using t[THEN conjunct2, THEN conjunct2, THEN conjunct2, THEN conjunct1] by simp
  have "snd (read_loop (hsr_frame sample_parse) (hsr_init, []) (take 1 sample_reads_bad))
      = last (split_nl (concat (take 1 sample_reads_bad)))"
    using t[THEN conjunct2, THEN conjunct2, THEN conjunct2, THEN conjunct2, THEN conjunct1]
    by blast
  then have t5: "snd (read_loop (hsr_frame sample_parse) (hsr_init, []) (take 1 sample_reads_bad))
      = ''data: {oo''"
    by (simp only: k)
  have t6: "handleStreamingResponse sample_parse (Some ([concat sample_reads_bad], Done))
       = handleStreamingResponse sample_parse (Some (sample_reads_bad, Done))"
    using t[THEN conjunct2, THEN conjunct2, THEN conjunct2, THEN conjunct2, THEN conjunct2] c1
    by blast
  have wf': "\<forall>p \<in> set [''{hello}'', ''{world}'']. nl \<notin> set p \<and> p \<noteq> ''[DONE]''" by simp
  have eq': "concat sample_reads = sse_stream [''{hello}'', ''{world}'']"
    by (simp add: sample_reads_def sse_stream_def sse_frames_def sse_frame_def)
  have d': "concat (map (payload_delta sample_parse) [''{hello}'', ''{world}'']) = ''Hello world''"
    by (simp add: payload_delta_def sample_parse_def sample_chunk_def chunk_delta_def)
  have l': "citation_lists (List.map_filter sample_parse [''{hello}'', ''{world}'']) = []"
    by (simp add: citation_lists_def sample_parse_def sample_chunk_def)
  note t' = accumulated_text[OF wf' eq', of sample_parse, unfolded d' l']
  have t7: "handleStreamingResponse sample_parse (Some (sample_reads, Done)) = Inr ''Hello world''"
    using t'[THEN conjunct2, THEN conjunct2, THEN conjunct1] by simp
  show ?thesis using eq t1 t2 t3 t4 t5 t6 eq' t7 by (intro conjI)
qed

text \<open>
  Two remarks on the edges. Frames that follow the sentinel are skipped when they arrive in
  the same read and processed when they arrive in a later one (the sentinel only leaves the
  \<^verbatim>\<open>for\<close> loop), so the hypothesis that the stream ends in the sentinel is needed. A last
  line without its newline stays in the buffer when the body ends.
\<close>

lemma frames_after_sentinel_depend_on_reads:
  "content (fst (read_loop (hsr_frame sample_parse) (hsr_init, [])
      [''data: [DONE]'' @ [nl] @ ''data: {hello}'' @ [nl]])) = []
   \<and> content (fst (read_loop (hsr_frame sample_parse) (hsr_init, [])
      [''data: [DONE]'' @ [nl], ''data: {hello}'' @ [nl]])) = ''Hello''"
  by (simp add: js_trim_def js_space_def startsWith_def hsr_frame_def hsr_chunk_def hsr_init_def
      sample_parse_def sample_chunk_def chunk_delta_def)

lemma unterminated_last_line_not_processed:
  "nl \<notin> set line \<Longrightarrow> read_loop frame (a, []) [line] = (a, line)"
  by (simp add: split_nl_no_nl)

text \<open>
  Claim C8: a frame whose payload does not parse, anywhere between other frames, is skipped
  and nothing else is: the variables end as if the records of all the other frames had been
  applied in order, the result is the result on the stream without that frame, and the
  function returns a text (no error leaves the loop). The stream may end in the sentinel or
  just end.
\<close>

theorem malformed_frame_skipped:
  assumes wf: "\<forall>p \<in> set (before @ bad # after). nl \<notin> set p \<and> p \<noteq> ''[DONE]''"
      and bad: "JSON_parse bad = None"
      and tail: "tail = [] \<or> tail = sse_frame ''[DONE]''"
      and reads: "concat reads = sse_frames (before @ bad # after) @ tail"
  shows "fst (read_loop (hsr_frame JSON_parse) (hsr_init, []) reads)
           = foldl hsr_chunk hsr_init (List.map_filter JSON_parse (before @ after))
       \<and> handleStreamingResponse JSON_parse (Some (reads, Done))
           = handleStreamingResponse JSON_parse (Some ([sse_frames (before @ after) @ tail], Done))
       \<and> (\<exists>text. handleStreamingResponse JSON_parse (Some (reads, Done)) = Inr text)"
proof -
  let ?f = "hsr_frame JSON_parse"
  have wf': "\<forall>p \<in> set (before @ after). nl \<notin> set p \<and> p \<noteq> ''[DONE]''"
    using wf by auto
  have skip: "foldl ?f hsr_init (before @ bad # after) = foldl ?f hsr_init (before @ after)"
    using bad by (simp add: hsr_frame_def)
  have r1: "read_loop ?f (hsr_init, []) reads = (foldl ?f hsr_init (before @ after), [])"
    using read_loop_frames[OF wf tail reads, of ?f hsr_init] skip by simp
  have "concat [sse_frames (before @ after) @ tail] = sse_frames (before @ after) @ tail"
    by simp
  then have r2: "read_loop ?f (hsr_init, []) [sse_frames (before @ after) @ tail]
      = (foldl ?f hsr_init (before @ after), [])"
    by (rule read_loop_frames[OF wf' tail])
  have 1: "fst (read_loop ?f (hsr_init, []) reads)
           = foldl hsr_chunk hsr_init (List.map_filter JSON_parse (before @ after))"
    by (simp only: r1 fst_conv foldl_hsr_frame_chunks)
  have 2: "handleStreamingResponse JSON_parse (Some (reads, Done))
           = handleStreamingResponse JSON_parse (Some ([sse_frames (before @ after) @ tail], Done))"
    by (simp only: handleStreamingResponse_def option.case prod.case r1 r2)
  have 3: "\<exists>text. handleStreamingResponse JSON_parse (Some (reads, Done)) = Inr text"
    by (simp add: handleStreamingResponse_def r1)
  show ?thesis using 1 2 3 by blast
qed

theorem malformed_frame_skipped_witness:
  "sample_parse ''{oops'' = None
   \<and> concat sample_reads_bad
       = sse_frames ([''{hello}''] @ ''{oops'' # [''{world}'', ''{sources}'']) @ sse_frame ''[DONE]''
   \<and> fst (read_loop (hsr_frame sample_parse) (hsr_init, []) sample_reads_bad)
       = \<lparr>content = ''Hello world'', searchResults = Some [sample_source ''A'']\<rparr>"
proof -
  have wf: "\<forall>p \<in> set ([''{hello}''] @ ''{oops'' # [''{world}'', ''{sources}'']).
              nl \<notin> set p \<and> p \<noteq> ''[DONE]''"
    by simp
  have bad: "sample_parse ''{oops'' = None"
    by (simp add: sample_parse_def)
  have tail: "sse_frame ''[DONE]'' = [] \<or> sse_frame ''[DONE]'' = sse_frame ''[DONE]''"
    by simp
  have eq: "concat sample_reads_bad
       = sse_frames ([''{hello}''] @ ''{oops'' # [''{world}'', ''{sources}'']) @ sse_frame ''[DONE]''"
    by (simp add: sample_reads_bad_def sse_frames_def sse_frame_def)
  have v: "foldl hsr_chunk hsr_init
             (List.map_filter sample_parse ([''{hello}''] @ [''{world}'', ''{sources}'']))
           = \<lparr>content = ''Hello world'', searchResults = Some [sample_source ''A'']\<rparr>"
    by (simp add: sample_parse_def sample_chunk_def hsr_chunk_def hsr_init_def chunk_delta_def)
  from malformed_frame_skipped[where before = "[''{hello}'']" and bad = "''{oops''"
      and after = "[''{world}'', ''{sources}'']" and JSON_parse = sample_parse
      and tail = "sse_frame ''[DONE]''" and reads = sample_reads_bad, OF wf bad tail eq]
  have "fst (read_loop (hsr_frame sample_parse) (hsr_init, []) sample_reads_bad)
      = foldl hsr_chunk hsr_init
          (List.map_filter sample_parse ([''{hello}''] @ [''{world}'', ''{sources}'']))"
    by (rule conjunct1)
  then show ?thesis using bad eq v by (simp only:)
qed

section \<open>Properties of retrying\<close>

lemma retry_loop_exhausted:
  "\<not> int attempt < maxAttempts \<Longrightarrow> retry_loop net maxAttempts attempt = (Inl UnexpectedState, 0)"
  by (subst retry_loop.simps) simp

lemma retry_loop_aborted:
  "int attempt < maxAttempts \<Longrightarrow> aborted net attempt \<Longrightarrow>
   retry_loop net maxAttempts attempt = (Inl (Thrown AbortError), 0)"
  by (subst retry_loop.simps) simp

lemma retry_loop_returns:
  "int attempt < maxAttempts \<Longrightarrow> \<not> aborted net attempt \<Longrightarrow>
   fetch net attempt = Responds response \<Longrightarrow>
   ok response \<or> status response \<notin> RETRYABLE_STATUS \<or> int attempt = maxAttempts - 1 \<Longrightarrow>
   retry_loop net maxAttempts attempt = (Inr response, 1)"
  by (subst retry_loop.simps) auto

lemma retry_loop_throws:
  "int attempt < maxAttempts \<Longrightarrow> \<not> aborted net attempt \<Longrightarrow>
   fetch net attempt = Rejects error \<Longrightarrow>
   error = AbortError \<or> int attempt = maxAttempts - 1 \<Longrightarrow>
   retry_loop net maxAttempts attempt = (Inl (Thrown error), 1)"
  by (subst retry_loop.simps) auto

lemma retry_loop_retries_status:
  "int attempt < maxAttempts \<Longrightarrow> \<not> aborted net attempt \<Longrightarrow>
   fetch net attempt = Responds response \<Longrightarrow>
   \<not> ok response \<Longrightarrow> status response \<in> RETRYABLE_STATUS \<Longrightarrow> int attempt \<noteq> maxAttempts - 1 \<Longrightarrow>
   retry_loop net maxAttempts attempt
     = (fst (retry_loop net maxAttempts (attempt + 1)), snd (retry_loop net maxAttempts (attempt + 1)) + 1)"
  by (subst retry_loop.simps) (simp split: prod.splits)

lemma retry_loop_retries_error:
  "int attempt < maxAttempts \<Longrightarrow> \<not> aborted net attempt \<Longrightarrow>
   fetch net attempt = Rejects error \<Longrightarrow>
   error \<noteq> AbortError \<Longrightarrow> int attempt \<noteq> maxAttempts - 1 \<Longrightarrow>
   retry_loop net maxAttempts attempt
     = (fst (retry_loop net maxAttempts (attempt + 1)), snd (retry_loop net maxAttempts (attempt + 1)) + 1)"
  by (subst retry_loop.simps) (simp split: prod.splits)

lemma retry_loop_bounded:
  "int attempt < maxAttempts \<Longrightarrow>
     fst (retry_loop net maxAttempts attempt) \<noteq> Inl UnexpectedState
   \<and> int attempt + int (snd (retry_loop net maxAttempts attempt)) \<le> maxAttempts"
proof (induction net maxAttempts attempt rule: retry_loop.induct)
  case (1 net maxAttempts attempt)
  note lt = "1.prems"
  show ?case
  proof (cases "aborted net attempt")
    case True
    then show ?thesis using lt by (simp add: retry_loop_aborted)
  next
    case na: False
    show ?thesis
    proof (cases "fetch net attempt")
      case (Responds response)
      show ?thesis
      proof (cases "ok response \<or> status response \<notin> RETRYABLE_STATUS \<or> int attempt = maxAttempts - 1")
        case True
        then show ?thesis using lt by (simp add: retry_loop_returns[OF lt na Responds])
      next
        case False
        then have nxt: "int (attempt + 1) < maxAttempts" using lt by simp
        have ih: "fst (retry_loop net maxAttempts (attempt + 1)) \<noteq> Inl UnexpectedState
           \<and> int (attempt + 1) + int (snd (retry_loop net maxAttempts (attempt + 1))) \<le> maxAttempts"
          using "1.IH"(1)[OF lt na Responds _ _ nxt] False by simp
        have "retry_loop net maxAttempts attempt
            = (fst (retry_loop net maxAttempts (attempt + 1)),
               snd (retry_loop net maxAttempts (attempt + 1)) + 1)"
          using False by (intro retry_loop_retries_status[OF lt na Responds]) auto
        then show ?thesis using ih by simp
      qed
    next
      case (Rejects error)
      show ?thesis
      proof (cases "error = AbortError \<or> int attempt = maxAttempts - 1")
        case True
        then show ?thesis using lt by (simp add: retry_loop_throws[OF lt na Rejects])
      next
        case False
        then have nxt: "int (attempt + 1) < maxAttempts" using lt by simp
        have ih: "fst (retry_loop net maxAttempts (attempt + 1)) \<noteq> Inl UnexpectedState
           \<and> int (attempt + 1) + int (snd (retry_loop net maxAttempts (attempt + 1))) \<le> maxAttempts"
          using "1.IH"(2)[OF lt na Rejects _ _ nxt] False by simp
        have "retry_loop net maxAttempts attempt
            = (fst (retry_loop net maxAttempts (attempt + 1)),
               snd (retry_loop net maxAttempts (attempt + 1)) + 1)"
          using False by (intro retry_loop_retries_error[OF lt na Rejects]) auto
        then show ?thesis using ih by simp
      qed
    qed
  qed
qed

lemma retryFetch_nonpositive:
  "maxAttempts \<le> 0 \<Longrightarrow> retryFetch net maxAttempts = (Inl UnexpectedState, 0)"
  by (simp add: retryFetch_def retry_loop_exhausted)

lemma retryFetch_first_final:
  assumes "\<not> aborted net 0" and "fetch net 0 = Responds r1"
      and "ok r1 \<or> status r1 \<notin> RETRYABLE_STATUS"
  shows "retryFetch net 2 = (Inr r1, 1)"
  unfolding retryFetch_def using assms by (intro retry_loop_returns) auto

lemma retryable_not_ok: "status r \<in> RETRYABLE_STATUS \<Longrightarrow> \<not> ok r"
  by (auto simp: RETRYABLE_STATUS_def ok_def)

lemma retryFetch_second_returned:
  assumes "\<not> aborted net 0" and "fetch net 0 = Responds r1" and "status r1 \<in> RETRYABLE_STATUS"
      and "\<not> aborted net 1" and "fetch net 1 = Responds r2"
  shows "retryFetch net 2 = (Inr r2, 2)"
proof -
  have second: "retry_loop net 2 (0 + 1) = (Inr r2, 1)"
    using assms(4,5) by (intro retry_loop_returns) auto
  have "retry_loop net 2 0 = (fst (retry_loop net 2 (0 + 1)), snd (retry_loop net 2 (0 + 1)) + 1)"
    using assms(1,2,3) retryable_not_ok[OF assms(3)] by (intro retry_loop_retries_status) auto
  then show ?thesis unfolding retryFetch_def second by simp
qed

lemma retryFetch_net_down:
  "retryFetch net_down 2 = (Inl (Thrown (FetchFailed ''ECONNREFUSED'')), 2)"
proof -
  have "retry_loop net_down 2 (0 + 1) = (Inl (Thrown (FetchFailed ''ECONNREFUSED'')), 1)"
    by (rule retry_loop_throws) (simp_all add: net_down_def)
  moreover have "retry_loop net_down 2 0
      = (fst (retry_loop net_down 2 (0 + 1)), snd (retry_loop net_down 2 (0 + 1)) + 1)"
    by (rule retry_loop_retries_error[where error = "FetchFailed ''ECONNREFUSED''"])
       (simp_all add: net_down_def)
  ultimately show ?thesis by (simp add: retryFetch_def)
qed

text \<open>
  Claim C9: for every number of attempts that is at least 1 and every network,
  \<^verbatim>\<open>retryFetch\<close> ends by returning a response or by throwing the error of a fetch or of
  the abort test, after at most that many calls: the \<^verbatim>\<open>throw\<close> after its loop is never
  reached. (\<open>retry_loop\<close> is a total function: its termination is proved where it is
  defined.)
\<close>

theorem retry_terminates:
  assumes "1 \<le> maxAttempts"
  shows "fst (retryFetch net maxAttempts) \<noteq> Inl UnexpectedState
       \<and> int (snd (retryFetch net maxAttempts)) \<le> maxAttempts
       \<and> ((\<exists>response. fst (retryFetch net maxAttempts) = Inr response)
          \<or> (\<exists>error. fst (retryFetch net maxAttempts) = Inl (Thrown error)))"
proof -
  have lt: "int 0 < maxAttempts" using assms by simp
  have b: "fst (retryFetch net maxAttempts) \<noteq> Inl UnexpectedState"
    and n: "int (snd (retryFetch net maxAttempts)) \<le> maxAttempts"
    using retry_loop_bounded[OF lt, of net] by (simp_all add: retryFetch_def)
  have "(\<exists>response. fst (retryFetch net maxAttempts) = Inr response)
      \<or> (\<exists>error. fst (retryFetch net maxAttempts) = Inl (Thrown error))"
  proof (cases "fst (retryFetch net maxAttempts)")
    case (Inl e)
    then show ?thesis using b by (cases e) simp_all
  next
    case (Inr response)
    then show ?thesis by simp
  qed
  then show ?thesis using b n by blast
qed

theorem retry_terminates_witness:
  "(1::int) \<le> 2
   \<and> fst (retryFetch net_down 2) \<noteq> Inl UnexpectedState
   \<and> int (snd (retryFetch net_down 2)) \<le> 2
   \<and> retryFetch net_down 2 = (Inl (Thrown (FetchFailed ''ECONNREFUSED'')), 2)"
proof -
  have one: "(1::int) \<le> 2" by simp
  from retry_terminates[OF one, of net_down] one retryFetch_net_down show ?thesis by simp
qed

lemma retryFetch_at_most_two: "snd (retryFetch net 2) \<le> 2"
proof -
  have "int 0 < (2::int)" by simp
  from retry_loop_bounded[OF this, of net] show ?thesis by (simp add: retryFetch_def)
qed

lemma fetch_with_retry_posted:
  "snd (fetch_with_retry net options request) = replicate (snd (retryFetch net 2)) request"
  by (simp add: fetch_with_retry_def split: prod.splits)

lemma performSearch_retry_stdio_posted:
  "snd (performSearch_retry_stdio P net query options)
     = replicate (snd (retryFetch net 2)) (body_retry_stdio query options)"
proof -
  obtain r p where fw: "fetch_with_retry net options (body_retry_stdio query options) = (r, p)"
    by (cases "fetch_with_retry net options (body_retry_stdio query options)")
  then have "p = replicate (snd (retryFetch net 2)) (body_retry_stdio query options)"
    using fetch_with_retry_posted[of net options "body_retry_stdio query options"] by simp
  then show ?thesis by (simp add: performSearch_retry_stdio_def Let_def fw)
qed

lemma performSearch_retry_http_posted:
  "snd (performSearch_retry_http net query options)
     = replicate (snd (retryFetch net 2)) (body_retry_http query options)"
proof -
  obtain r p where fw: "fetch_with_retry net options (body_retry_http query options) = (r, p)"
    by (cases "fetch_with_retry net options (body_retry_http query options)")
  then have "p = replicate (snd (retryFetch net 2)) (body_retry_http query options)"
    using fetch_with_retry_posted[of net options "body_retry_http query options"] by simp
  then show ?thesis by (simp add: performSearch_retry_http_def Let_def fw)
qed

lemma performSearch_index_posted:
  "snd (performSearch_index P net query options) = [body_index query options]"
  by (simp add: performSearch_index_def Let_def)

lemma performSearch_server_posted:
  "snd (performSearch_server net query options) = [body_index query options]"
  by (simp add: performSearch_server_def Let_def)

text \<open>
  Claim C5, as the code has it. The statuses that are retried are 408, 429, 500, 502, 503
  and 504 (not every 5xx). When the first attempt answers with one of them and the second
  attempt answers with success, two calls are made and the success is returned; when the
  first attempt answers with any other status (404, say), one call is made and that
  response is returned; a request never makes more than two calls.
\<close>

theorem retry_policy:
  "(\<not> aborted net 0 \<and> fetch net 0 = Responds r1 \<and> status r1 \<in> RETRYABLE_STATUS
      \<and> \<not> aborted net 1 \<and> fetch net 1 = Responds r2 \<and> ok r2
      \<longrightarrow> retryFetch net 2 = (Inr r2, 2))
   \<and> (\<not> aborted net 0 \<and> fetch net 0 = Responds r1 \<and> status r1 \<notin> RETRYABLE_STATUS
      \<longrightarrow> retryFetch net 2 = (Inr r1, 1))
   \<and> snd (retryFetch net 2) \<le> 2
   \<and> length (snd (performSearch_retry_stdio JSON_parse net query options)) \<le> 2
   \<and> length (snd (performSearch_retry_http net query options)) \<le> 2
   \<and> RETRYABLE_STATUS = {408, 429, 500, 502, 503, 504}"
proof -
  have a: "\<not> aborted net 0 \<and> fetch net 0 = Responds r1 \<and> status r1 \<in> RETRYABLE_STATUS
      \<and> \<not> aborted net 1 \<and> fetch net 1 = Responds r2 \<and> ok r2
      \<longrightarrow> retryFetch net 2 = (Inr r2, 2)"
    using retryFetch_second_returned[of net r1 r2] by blast
  have b: "\<not> aborted net 0 \<and> fetch net 0 = Responds r1 \<and> status r1 \<notin> RETRYABLE_STATUS
      \<longrightarrow> retryFetch net 2 = (Inr r1, 1)"
    using retryFetch_first_final[of net r1] by blast
  have c: "length (snd (performSearch_retry_stdio JSON_parse net query options)) \<le> 2"
    by (simp add: performSearch_retry_stdio_posted retryFetch_at_most_two)
  have d: "length (snd (performSearch_retry_http net query options)) \<le> 2"
    by (simp add: performSearch_retry_http_posted retryFetch_at_most_two)
  show ?thesis using a b c d retryFetch_at_most_two[of net] RETRYABLE_STATUS_def by blast
qed

theorem retry_policy_witness:
  "status (sample_response 429 None) \<in> RETRYABLE_STATUS
   \<and> ok (sample_response 200 None)
   \<and> retryFetch (sample_net 429 200) 2 = (Inr (sample_response 200 None), 2)
   \<and> status (sample_response 404 None) \<notin> RETRYABLE_STATUS
   \<and> retryFetch (sample_net 404 200) 2 = (Inr (sample_response 404 None), 1)"
proof -
  have s1: "status (sample_response 429 None) \<in> RETRYABLE_STATUS"
    by (simp add: sample_response_def RETRYABLE_STATUS_def)
  have s2: "ok (sample_response 200 None)"
    by (simp add: sample_response_def ok_def)
  have s3: "status (sample_response 404 None) \<notin> RETRYABLE_STATUS"
    by (simp add: sample_response_def RETRYABLE_STATUS_def)
  have n1: "\<not> aborted (sample_net 429 200) 0 \<and> \<not> aborted (sample_net 429 200) 1
      \<and> fetch (sample_net 429 200) 0 = Responds (sample_response 429 None)
      \<and> fetch (sample_net 429 200) 1 = Responds (sample_response 200 None)"
    by (simp add: sample_net_def)
  have n2: "\<not> aborted (sample_net 404 200) 0
      \<and> fetch (sample_net 404 200) 0 = Responds (sample_response 404 None)"
    by (simp add: sample_net_def)
  have a: "retryFetch (sample_net 429 200) 2 = (Inr (sample_response 200 None), 2)"
    using retry_policy[of "sample_net 429 200" "sample_response 429 None" "sample_response 200 None"]
      s1 s2 n1 by blast
  have b: "retryFetch (sample_net 404 200) 2 = (Inr (sample_response 404 None), 1)"
    using retry_policy[of "sample_net 404 200" "sample_response 404 None"] s3 n2 by blast
  show ?thesis using s1 s2 s3 a b by blast
qed

text \<open>
  Claim C5 as stated fails for the 5xx statuses outside the set: a first answer 501 is
  returned at once, after one call, although the second attempt would have succeeded.
\<close>

theorem retry_5xx_counterexample:
  "500 \<le> status (sample_response 501 None) \<and> status (sample_response 501 None) \<le> 599
   \<and> fetch (sample_net 501 200) 0 = Responds (sample_response 501 None)
   \<and> fetch (sample_net 501 200) 1 = Responds (sample_response 200 None)
   \<and> ok (sample_response 200 None)
   \<and> retryFetch (sample_net 501 200) 2 = (Inr (sample_response 501 None), 1)"
proof -
  have "retryFetch (sample_net 501 200) 2 = (Inr (sample_response 501 None), 1)"
    by (rule retryFetch_first_final)
       (simp_all add: sample_net_def sample_response_def RETRYABLE_STATUS_def)
  then show ?thesis by (simp add: sample_net_def sample_response_def ok_def)
qed

section \<open>Properties of the request body\<close>

text \<open>
  Claim C10: \<^verbatim>\<open>performSearch\<close> (index.ts and the stdio server with retries) leaves
  \<^verbatim>\<open>max_tokens\<close> out of the body it posts when the option is 0, and puts \<^verbatim>\<open>temperature\<close>
  in when the option is 0.
\<close>

theorem zero_max_tokens_omitted:
  "(opt_max_tokens options = Some (Finite 0) \<longrightarrow>
       max_tokens (body_index query options) = None
     \<and> max_tokens (body_retry_stdio query options) = None)
   \<and> (opt_temperature options = Some (Finite 0) \<longrightarrow>
       temperature (body_index query options) = Some (Finite 0)
     \<and> temperature (body_retry_stdio query options) = Some (Finite 0))
   \<and> snd (performSearch_index JSON_parse net query options) = [body_index query options]
   \<and> set (snd (performSearch_retry_stdio JSON_parse net query options))
        \<subseteq> {body_retry_stdio query options}"
proof -
  have m: "opt_max_tokens options = Some (Finite 0) \<longrightarrow>
       max_tokens (body_index query options) = None
     \<and> max_tokens (body_retry_stdio query options) = None"
    by (simp add: body_index_def body_retry_stdio_def if_truthy_number_def)
  have t: "opt_temperature options = Some (Finite 0) \<longrightarrow>
       temperature (body_index query options) = Some (Finite 0)
     \<and> temperature (body_retry_stdio query options) = Some (Finite 0)"
    by (simp add: body_index_def body_retry_stdio_def)
  have p: "set (snd (performSearch_retry_stdio JSON_parse net query options))
        \<subseteq> {body_retry_stdio query options}"
    unfolding performSearch_retry_stdio_posted by auto
  show ?thesis using m t p performSearch_index_posted[of JSON_parse net query options] by blast
qed

theorem zero_max_tokens_omitted_witness:
  "max_tokens (body_index (JStr ''q'')
      (options_index (JObj [(''query'', JStr ''q''), (''max_tokens'', JNum (Finite 0)), (''temperature'', JNum (Finite 0))])))
     = None
   \<and> temperature (body_index (JStr ''q'')
      (options_index (JObj [(''query'', JStr ''q''), (''max_tokens'', JNum (Finite 0)), (''temperature'', JNum (Finite 0))])))
     = Some (Finite 0)
   \<and> max_tokens (body_retry_stdio (JStr ''q'')
      (options_retry_stdio (JObj [(''query'', JStr ''q''), (''max_tokens'', JNum (Finite 0)), (''temperature'', JNum (Finite 0))])))
     = None
   \<and> temperature (body_retry_stdio (JStr ''q'')
      (options_retry_stdio (JObj [(''query'', JStr ''q''), (''max_tokens'', JNum (Finite 0)), (''temperature'', JNum (Finite 0))])))
     = Some (Finite 0)"
proof -
  let ?args = "JObj [(''query'', JStr ''q''), (''max_tokens'', JNum (Finite 0)), (''temperature'', JNum (Finite 0))]"
  have o1: "opt_max_tokens (options_index ?args) = Some (Finite 0) \<and> opt_temperature (options_index ?args) = Some (Finite 0)"
    by (simp add: options_index_def number_or_undefined_def field_def)
  have o2: "opt_max_tokens (options_retry_stdio ?args) = Some (Finite 0)
          \<and> opt_temperature (options_retry_stdio ?args) = Some (Finite 0)"
    by (simp add: options_retry_stdio_def options_index_def number_or_undefined_def field_def)
  show ?thesis
    using zero_max_tokens_omitted[of "options_index ?args" "JStr ''q''"]
      zero_max_tokens_omitted[of "options_retry_stdio ?args" "JStr ''q''"] o1 o2
    by blast
qed

section \<open>Properties of the handlers\<close>


lemma field_defined: "field v k = x \<Longrightarrow> x \<noteq> JUndefined \<Longrightarrow> get_prop v k = Some x"
  by (cases v) (auto simp: field_def)

lemma string_or_undefined_None: "typeof v \<noteq> ''string'' \<Longrightarrow> string_or_undefined v = None"
  by (simp add: string_or_undefined_def)

lemma boolean_or_undefined_None: "typeof v \<noteq> ''boolean'' \<Longrightarrow> boolean_or_undefined v = None"
  by (simp add: boolean_or_undefined_def)

lemma number_or_undefined_None: "typeof v \<noteq> ''number'' \<Longrightarrow> number_or_undefined v = None"
  by (simp add: number_or_undefined_def)

lemma CallTool_index_valid:
  assumes "truthy args" and "typeof (field args ''query'') = ''string''"
  shows "CallTool_index P net tool_name args
       = (case performSearch_index P net (field args ''query'') (options_index args) of
            (Inl error, posted) \<Rightarrow> (\<lparr>blocks = [ErrorText (SearchFailed error)], isError = True\<rparr>, posted)
          | (Inr text, posted) \<Rightarrow> (\<lparr>blocks = [TextBlock text], isError = False\<rparr>, posted))"
  using assms by (simp add: CallTool_index_def tool_name_def)

lemma CallTool_index_posted:
  assumes "truthy args" and "typeof (field args ''query'') = ''string''"
  shows "snd (CallTool_index P net tool_name args)
       = [body_index (field args ''query'') (options_index args)]"
proof -
  obtain r p where ps: "performSearch_index P net (field args ''query'') (options_index args) = (r, p)"
    by (cases "performSearch_index P net (field args ''query'') (options_index args)")
  then have "p = [body_index (field args ''query'') (options_index args)]"
    using performSearch_index_posted[of P net "field args ''query''" "options_index args"] by simp
  then show ?thesis
    unfolding CallTool_index_valid[OF assms] ps by (cases r) simp_all
qed

lemma json_member_max_tokens:
  "json_member (JSON_stringify request) ''max_tokens'' = map_option stringify_number (max_tokens request)"
  by (cases "search_mode request"; cases "recency_filter request"; cases "reasoning_effort request";
      cases "max_tokens request"; cases "temperature request"; cases "web_search_options request")
     (simp_all add: json_member_def JSON_stringify_def property_def)

lemma json_member_temperature:
  "json_member (JSON_stringify request) ''temperature'' = map_option stringify_number (temperature request)"
  by (cases "search_mode request"; cases "recency_filter request"; cases "reasoning_effort request";
      cases "max_tokens request"; cases "temperature request"; cases "web_search_options request")
     (simp_all add: json_member_def JSON_stringify_def property_def)

text \<open>
  Claim C7, as the code has it (index.ts). An optional argument of the wrong runtime type
  is treated as absent: the body gets the default model and no streaming, and none of the
  optional fields. A number of the right type is never tested against a range and never
  clamped: \<^verbatim>\<open>max_tokens\<close> goes into the body unless it is falsy (0 or \<^verbatim>\<open>NaN\<close>), \<^verbatim>\<open>temperature\<close>
  always. In the posted JSON a finite value is that same number, whatever its size, and a
  value that is not finite (\<^verbatim>\<open>1e400\<close> is read as \<^verbatim>\<open>Infinity\<close>) is \<^verbatim>\<open>null\<close>. With a string
  query the handler posts exactly that body.
\<close>

theorem optional_arguments:
  "(typeof (field args ''model'') \<noteq> ''string'' \<longrightarrow>
      model (body_index query (options_index args)) = ''sonar'')
   \<and> (typeof (field args ''stream'') \<noteq> ''boolean'' \<longrightarrow>
      stream (body_index query (options_index args)) = False)
   \<and> (typeof (field args ''search_mode'') \<noteq> ''string'' \<longrightarrow>
      search_mode (body_index query (options_index args)) = None)
   \<and> (typeof (field args ''recency_filter'') \<noteq> ''string'' \<longrightarrow>
      recency_filter (body_index query (options_index args)) = None)
   \<and> (typeof (field args ''reasoning_effort'') \<noteq> ''string'' \<longrightarrow>
      reasoning_effort (body_index query (options_index args)) = None)
   \<and> (typeof (field args ''max_tokens'') \<noteq> ''number'' \<longrightarrow>
      max_tokens (body_index query (options_index args)) = None
    \<and> json_member (JSON_stringify (body_index query (options_index args))) ''max_tokens'' = None)
   \<and> (typeof (field args ''temperature'') \<noteq> ''number'' \<longrightarrow>
      temperature (body_index query (options_index args)) = None
    \<and> json_member (JSON_stringify (body_index query (options_index args))) ''temperature'' = None)
   \<and> (field args ''max_tokens'' = JNum n \<and> truthy_number n \<longrightarrow>
      max_tokens (body_index query (options_index args)) = Some n
    \<and> json_member (JSON_stringify (body_index query (options_index args))) ''max_tokens''
        = Some (stringify_number n))
   \<and> (field args ''max_tokens'' = JNum n \<and> \<not> truthy_number n \<longrightarrow>
      max_tokens (body_index query (options_index args)) = None
    \<and> json_member (JSON_stringify (body_index query (options_index args))) ''max_tokens'' = None)
   \<and> (field args ''temperature'' = JNum t \<longrightarrow>
      temperature (body_index query (options_index args)) = Some t
    \<and> json_member (JSON_stringify (body_index query (options_index args))) ''temperature''
        = Some (stringify_number t))
   \<and> (field args ''max_tokens'' = JNum (Finite r) \<and> r \<noteq> 0 \<longrightarrow>
      json_member (JSON_stringify (body_index query (options_index args))) ''max_tokens''
        = Some (JsonNumber r))
   \<and> (field args ''max_tokens'' = JNum PosInfinity \<or> field args ''max_tokens'' = JNum NegInfinity \<longrightarrow>
      json_member (JSON_stringify (body_index query (options_index args))) ''max_tokens''
        = Some JsonNull)
   \<and> (field args ''temperature'' = JNum (Finite r) \<longrightarrow>
      json_member (JSON_stringify (body_index query (options_index args))) ''temperature''
        = Some (JsonNumber r))
   \<and> (field args ''temperature'' = JNum t \<and> (\<forall>x. t \<noteq> Finite x) \<longrightarrow>
      json_member (JSON_stringify (body_index query (options_index args))) ''temperature''
        = Some JsonNull)
   \<and> (truthy args \<and> typeof (field args ''query'') = ''string'' \<longrightarrow>
      snd (CallTool_index JSON_parse net tool_name args)
        = [body_index (field args ''query'') (options_index args)])"
proof -
  let ?b = "body_index query (options_index args)"
  have 1: "typeof (field args ''model'') \<noteq> ''string'' \<longrightarrow> model ?b = ''sonar''"
    by (simp add: body_index_def options_index_def string_or_undefined_None model_or_sonar_def)
  have 2: "typeof (field args ''stream'') \<noteq> ''boolean'' \<longrightarrow> stream ?b = False"
    by (simp add: body_index_def options_index_def boolean_or_undefined_None)
  have 3: "typeof (field args ''search_mode'') \<noteq> ''string'' \<longrightarrow> search_mode ?b = None"
    by (simp add: body_index_def options_index_def string_or_undefined_None if_truthy_string_def)
  have 4: "typeof (field args ''recency_filter'') \<noteq> ''string'' \<longrightarrow> recency_filter ?b = None"
    by (simp add: body_index_def options_index_def string_or_undefined_None if_truthy_string_def)
  have 5: "typeof (field args ''reasoning_effort'') \<noteq> ''string'' \<longrightarrow> reasoning_effort ?b = None"
    by (simp add: body_index_def options_index_def string_or_undefined_None if_truthy_string_def)
  have 6: "typeof (field args ''max_tokens'') \<noteq> ''number'' \<longrightarrow>
      max_tokens ?b = None \<and> json_member (JSON_stringify ?b) ''max_tokens'' = None"
    unfolding json_member_max_tokens
    by (simp add: body_index_def options_index_def number_or_undefined_None if_truthy_number_def)
  have 7: "typeof (field args ''temperature'') \<noteq> ''number'' \<longrightarrow>
      temperature ?b = None \<and> json_member (JSON_stringify ?b) ''temperature'' = None"
    unfolding json_member_temperature
    by (simp add: body_index_def options_index_def number_or_undefined_None)
  have 8: "field args ''max_tokens'' = JNum n \<and> truthy_number n \<longrightarrow>
      max_tokens ?b = Some n
    \<and> json_member (JSON_stringify ?b) ''max_tokens'' = Some (stringify_number n)"
    unfolding json_member_max_tokens
    by (simp add: body_index_def options_index_def number_or_undefined_def if_truthy_number_def)
  have 9: "field args ''max_tokens'' = JNum n \<and> \<not> truthy_number n \<longrightarrow>
      max_tokens ?b = None \<and> json_member (JSON_stringify ?b) ''max_tokens'' = None"
    unfolding json_member_max_tokens
    by (simp add: body_index_def options_index_def number_or_undefined_def if_truthy_number_def)
  have 10: "field args ''temperature'' = JNum t \<longrightarrow>
      temperature ?b = Some t
    \<and> json_member (JSON_stringify ?b) ''temperature'' = Some (stringify_number t)"
    unfolding json_member_temperature
    by (simp add: body_index_def options_index_def number_or_undefined_def)
  have 11: "field args ''max_tokens'' = JNum (Finite r) \<and> r \<noteq> 0 \<longrightarrow>
      json_member (JSON_stringify ?b) ''max_tokens'' = Some (JsonNumber r)"
    unfolding json_member_max_tokens
    by (simp add: body_index_def options_index_def number_or_undefined_def if_truthy_number_def)
  have 12: "field args ''max_tokens'' = JNum PosInfinity \<or> field args ''max_tokens'' = JNum NegInfinity \<longrightarrow>
      json_member (JSON_stringify ?b) ''max_tokens'' = Some JsonNull"
    unfolding json_member_max_tokens
    by (auto simp: body_index_def options_index_def number_or_undefined_def if_truthy_number_def)
  have 13: "field args ''temperature'' = JNum (Finite r) \<longrightarrow>
      json_member (JSON_stringify ?b) ''temperature'' = Some (JsonNumber r)"
    unfolding json_member_temperature
    by (simp add: body_index_def options_index_def number_or_undefined_def)
  have 14: "field args ''temperature'' = JNum t \<and> (\<forall>x. t \<noteq> Finite x) \<longrightarrow>
      json_member (JSON_stringify ?b) ''temperature'' = Some JsonNull"
    unfolding json_member_temperature
    by (cases t) (simp_all add: body_index_def options_index_def number_or_undefined_def)
  have 15: "truthy args \<and> typeof (field args ''query'') = ''string'' \<longrightarrow>
      snd (CallTool_index JSON_parse net tool_name args)
        = [body_index (field args ''query'') (options_index args)]"
    using CallTool_index_posted by blast
  show ?thesis using 1 2 3 4 5 6 7 8 9 10 11 12 13 14 15 by (intro conjI)
qed

theorem optional_arguments_witness:
  "truthy sample_args \<and> typeof (field sample_args ''query'') = ''string''
   \<and> typeof (field sample_args ''model'') \<noteq> ''string''
   \<and> typeof (field sample_args ''max_tokens'') \<noteq> ''number''
   \<and> snd (CallTool_index sample_parse net_down tool_name sample_args)
       = [\<lparr>model = ''sonar'', user_content = JStr ''q'', stream = False, search_mode = None,
           recency_filter = None, reasoning_effort = None, max_tokens = None,
           temperature = None, web_search_options = None\<rparr>]
   \<and> max_tokens (body_index (JStr ''q'') (options_index sample_args_out_of_range))
       = Some (Finite 100000)
   \<and> json_member (JSON_stringify (body_index (JStr ''q'') (options_index sample_args_out_of_range)))
       ''max_tokens'' = Some (JsonNumber 100000)
   \<and> json_member (JSON_stringify (body_index (JStr ''q'') (options_index sample_args_out_of_range)))
       ''temperature'' = Some (JsonNumber 5)
   \<and> max_tokens (body_index (JStr ''q'') (options_index sample_args_overflow)) = Some PosInfinity
   \<and> json_member (JSON_stringify (body_index (JStr ''q'') (options_index sample_args_overflow)))
       ''max_tokens'' = Some JsonNull"
proof -
  have a: "truthy sample_args \<and> typeof (field sample_args ''query'') = ''string''"
    by (simp add: sample_args_def field_def)
  have t: "typeof (field sample_args ''model'') \<noteq> ''string''
         \<and> typeof (field sample_args ''stream'') \<noteq> ''boolean''
         \<and> typeof (field sample_args ''search_mode'') \<noteq> ''string''
         \<and> typeof (field sample_args ''recency_filter'') \<noteq> ''string''
         \<and> typeof (field sample_args ''reasoning_effort'') \<noteq> ''string''
         \<and> typeof (field sample_args ''max_tokens'') \<noteq> ''number''
         \<and> typeof (field sample_args ''temperature'') \<noteq> ''number''"
    by (simp add: sample_args_def field_def)
  have q: "field sample_args ''query'' = JStr ''q''"
    by (simp add: sample_args_def field_def)
  have w: "body_index (JStr ''q'') (options_index sample_args)
      = \<lparr>model = model (body_index (JStr ''q'') (options_index sample_args)),
         user_content = JStr ''q'',
         stream = stream (body_index (JStr ''q'') (options_index sample_args)),
         search_mode = search_mode (body_index (JStr ''q'') (options_index sample_args)),
         recency_filter = recency_filter (body_index (JStr ''q'') (options_index sample_args)),
         reasoning_effort = reasoning_effort (body_index (JStr ''q'') (options_index sample_args)),
         max_tokens = max_tokens (body_index (JStr ''q'') (options_index sample_args)),
         temperature = temperature (body_index (JStr ''q'') (options_index sample_args)),
         web_search_options = None\<rparr>"
    by (simp add: body_index_def)
  have o: "field sample_args_out_of_range ''max_tokens'' = JNum (Finite 100000)
         \<and> truthy_number (Finite 100000) \<and> (100000::rat) \<noteq> 0
         \<and> field sample_args_out_of_range ''temperature'' = JNum (Finite 5)"
    by (simp add: sample_args_out_of_range_def field_def)
  have i: "field sample_args_overflow ''max_tokens'' = JNum PosInfinity \<and> truthy_number PosInfinity"
    by (simp add: sample_args_overflow_def field_def)
  note th = optional_arguments[of sample_args "JStr ''q''" _ _ _ sample_parse net_down]
  note th2 = optional_arguments[of sample_args_out_of_range "JStr ''q''" "Finite 100000" "Finite 5" 100000]
  note th3 = optional_arguments[of sample_args_out_of_range "JStr ''q''" "Finite 100000" "Finite 5" 5]
  note th4 = optional_arguments[of sample_args_overflow "JStr ''q''" PosInfinity]
  have b: "snd (CallTool_index sample_parse net_down tool_name sample_args)
       = [\<lparr>model = ''sonar'', user_content = JStr ''q'', stream = False, search_mode = None,
           recency_filter = None, reasoning_effort = None, max_tokens = None,
           temperature = None, web_search_options = None\<rparr>]"
    using th a t q w by simp
  have c: "max_tokens (body_index (JStr ''q'') (options_index sample_args_out_of_range))
       = Some (Finite 100000)"
    using th2 o by blast
  have d: "json_member (JSON_stringify (body_index (JStr ''q'') (options_index sample_args_out_of_range)))
       ''max_tokens'' = Some (JsonNumber 100000)"
    using th2 o by blast
  have e: "json_member (JSON_stringify (body_index (JStr ''q'') (options_index sample_args_out_of_range)))
       ''temperature'' = Some (JsonNumber 5)"
    using th3 o by blast
  have f: "max_tokens (body_index (JStr ''q'') (options_index sample_args_overflow)) = Some PosInfinity"
    using th4 i by blast
  have g: "json_member (JSON_stringify (body_index (JStr ''q'') (options_index sample_args_overflow)))
       ''max_tokens'' = Some JsonNull"
    using th4 i by blast
  show ?thesis using a t b c d e f g by blast
qed

text \<open>
  Claim C7 as stated fails for numbers out of range: a \<^verbatim>\<open>max_tokens\<close> of 100000 (documented
  maximum 4096) and a temperature of 5 (documented maximum 2) are forwarded upstream as
  they are.
\<close>

theorem out_of_range_counterexample:
  "snd (CallTool_index sample_parse net_down tool_name sample_args_out_of_range)
     = [\<lparr>model = ''sonar'', user_content = JStr ''q'', stream = False, search_mode = None,
         recency_filter = None, reasoning_effort = None, max_tokens = Some (Finite 100000),
         temperature = Some (Finite 5), web_search_options = None\<rparr>]
   \<and> map JSON_stringify (snd (CallTool_index sample_parse net_down tool_name sample_args_out_of_range))
     = [JsonObject [(''model'', JsonString ''sonar''),
                    (''messages'', JsonArray [JsonObject [(''role'', JsonString ''user''),
                                                          (''content'', JsonString ''q'')]]),
                    (''stream'', JsonBool False),
                    (''max_tokens'', JsonNumber 100000),
                    (''temperature'', JsonNumber 5)]]"
proof -
  have a: "truthy sample_args_out_of_range"
    and q: "typeof (field sample_args_out_of_range ''query'') = ''string''"
    by (simp_all add: sample_args_out_of_range_def field_def)
  have b: "body_index (field sample_args_out_of_range ''query'') (options_index sample_args_out_of_range)
     = \<lparr>model = ''sonar'', user_content = JStr ''q'', stream = False, search_mode = None,
         recency_filter = None, reasoning_effort = None, max_tokens = Some (Finite 100000),
         temperature = Some (Finite 5), web_search_options = None\<rparr>"
    by (simp add: sample_args_out_of_range_def body_index_def options_index_def field_def
        string_or_undefined_def boolean_or_undefined_def number_or_undefined_def
        model_or_sonar_def if_truthy_string_def if_truthy_number_def)
  show ?thesis unfolding CallTool_index_posted[OF a q] b
    by (simp add: JSON_stringify_def property_def)
qed

lemma read_loop_done_only:
  "read_loop frame (a, []) [''data: [DONE]'' @ [nl, nl]] = (a, [])"
  by (simp add: js_trim_def js_space_def startsWith_def)

text \<open>
  Claim C3 at a stream that carries no text and no citations: the handler of index.ts, on
  a streaming call whose upstream body is just the sentinel, returns an empty text block,
  not the placeholder. The lemmas that follow give the general picture: whenever the loop
  ends with no text and no citations, \<^verbatim>\<open>handleStreamingResponse\<close> returns the empty text,
  while the content built from \<^verbatim>\<open>consumePerplexityStream\<close> is the placeholder alone, and
  the non-streaming branch of \<^verbatim>\<open>performSearch\<close> never returns an empty text either.
\<close>

theorem empty_stream_empty_text:
  "fst (CallTool_index JSON_parse (net_streaming [''data: [DONE]'' @ [nl, nl]]) tool_name
         (JObj [(''query'', JStr ''q''), (''stream'', JBool True)]))
     = \<lparr>blocks = [TextBlock []], isError = False\<rparr>"
proof -
  let ?args = "JObj [(''query'', JStr ''q''), (''stream'', JBool True)]"
  have a: "truthy ?args" and q: "typeof (field ?args ''query'') = ''string''"
    by (simp_all add: field_def)
  have s: "stream (body_index (field ?args ''query'') (options_index ?args))"
    by (simp add: body_index_def options_index_def field_def boolean_or_undefined_def)
  have h: "handleStreamingResponse JSON_parse (Some ([''data: [DONE]'' @ [nl, nl]], Done)) = Inr []"
    unfolding handleStreamingResponse_def option.case prod.case read_loop_done_only
    by (simp add: hsr_init_def)
  have "fst (performSearch_index JSON_parse (net_streaming [''data: [DONE]'' @ [nl, nl]])
          (field ?args ''query'') (options_index ?args)) = Inr []"
    using s h by (simp add: performSearch_index_def Let_def net_streaming_def sample_response_def ok_def)
  then obtain p where "performSearch_index JSON_parse (net_streaming [''data: [DONE]'' @ [nl, nl]])
          (field ?args ''query'') (options_index ?args) = (Inr [], p)"
    by (cases "performSearch_index JSON_parse (net_streaming [''data: [DONE]'' @ [nl, nl]])
          (field ?args ''query'') (options_index ?args)") simp
  then show ?thesis unfolding CallTool_index_valid[OF a q] by simp
qed

lemma consumed_content_placeholder:
  assumes "body response = Some (reads, Done)"
      and "read_loop (cps_frame P) (cps_init, []) reads = (a, buffer)"
      and "content a = []" and "searchResults a = None"
  shows "consumed_content P (OpenResponse response) = Inr [TextBlock ''No response generated.'']"
  using assms
  by (simp add: consumed_content_def consumePerplexityStream_def completion_blocks_def)

lemma handleStreamingResponse_no_placeholder:
  assumes "read_loop (hsr_frame P) (hsr_init, []) reads = (a, buffer)"
      and "content a = []" and "searchResults a = None"
  shows "handleStreamingResponse P (Some (reads, Done)) = Inr []"
  using assms by (simp add: handleStreamingResponse_def)

lemma consumePerplexityStream_text_not_empty:
  assumes "consumePerplexityStream P b = Inr r"
  shows "\<exists>c. cc_choices r = [c] \<and> msg_content (message c) \<noteq> []"
  using assms
  by (auto simp: consumePerplexityStream_def Let_def split: option.splits prod.splits stream_end.splits)

lemma completion_text_not_empty: "completion_text data \<noteq> []"
  by (simp add: completion_text_def split: list.splits)

text \<open>
  Claim C4 at a JSON-RPC \<^verbatim>\<open>tools/call\<close> without a query, on the \<^verbatim>\<open>/mcp\<close> route of server.ts:
  whatever the network, the route posts a request upstream, with no user content. (The
  handlers that test the query post nothing and report an error, and so does the \<^verbatim>\<open>/mcp\<close>
  route of the HTTP server with retries, whose log line throws: see the three lemmas that
  follow.)
\<close>

theorem missing_query_forwarded:
  "snd (mcp_server JSON_parse net
         (JObj [(''jsonrpc'', JStr ''2.0''), (''method'', JStr ''tools/call''),
                (''params'', JObj [(''name'', JStr ''perplexity-completions''),
                                   (''arguments'', JObj [])]),
                (''id'', JNum (Finite 1))]))
     = [\<lparr>model = ''sonar'', user_content = JUndefined, stream = False, search_mode = None,
         recency_filter = None, reasoning_effort = None, max_tokens = None,
         temperature = None, web_search_options = None\<rparr>]"
proof -
  have o: "body_index JUndefined (options_server (JObj []))
     = \<lparr>model = ''sonar'', user_content = JUndefined, stream = False, search_mode = None,
         recency_filter = None, reasoning_effort = None, max_tokens = None,
         temperature = None, web_search_options = None\<rparr>"
    by (simp add: body_index_def options_server_def options_index_def shouldStream_def field_def
        string_or_undefined_def boolean_or_undefined_def number_or_undefined_def
        model_or_sonar_def if_truthy_string_def if_truthy_number_def)
  obtain r p where ps: "performSearch_server net JUndefined (options_server (JObj [])) = (r, p)"
    by (cases "performSearch_server net JUndefined (options_server (JObj []))")
  then have p: "p = [body_index JUndefined (options_server (JObj []))]"
    using performSearch_server_posted[of net JUndefined "options_server (JObj [])"] by simp
  have "snd (mcp_server JSON_parse net
         (JObj [(''jsonrpc'', JStr ''2.0''), (''method'', JStr ''tools/call''),
                (''params'', JObj [(''name'', JStr ''perplexity-completions''),
                                   (''arguments'', JObj [])]),
                (''id'', JNum (Finite 1))])) = p"
    by (simp add: mcp_server_def field_def ps Let_def split: sum.splits server_result.splits)
  then show ?thesis by (simp add: p o)
qed

lemma invalid_query_stdio:
  assumes "typeof (field args ''query'') \<noteq> ''string''"
  shows "snd (CallTool_index P net name args) = []
       \<and> isError (fst (CallTool_index P net name args))
       \<and> snd (CallTool_retry_stdio P net name args) = []
       \<and> isError (fst (CallTool_retry_stdio P net name args))"
  using assms by (simp add: CallTool_index_def CallTool_retry_stdio_def)

lemma invalid_query_mcp_call:
  assumes "typeof (field (field req_body ''arguments'') ''query'') \<noteq> ''string''"
  shows "snd (mcp_call_server P net req_body) = []
       \<and> (\<exists>n e. fst (mcp_call_server P net req_body) = Reply n (ErrorPayload e))
       \<and> snd (mcp_call_retry_http P net req_body) = []
       \<and> (\<exists>n e. fst (mcp_call_retry_http P net req_body) = Reply n (ErrorPayload e))"
  using assms
  by (simp add: mcp_call_server_def mcp_call_retry_http_def Let_def split: option.splits)

lemma invalid_query_mcp_retry_http:
  assumes "field req_body ''method'' = JStr ''tools/call''"
      and "typeof (field (field (field req_body ''params'') ''arguments'') ''query'') \<noteq> ''string''"
  shows "snd (mcp_retry_http P net req_body) = []
       \<and> (\<exists>n i c e. fst (mcp_retry_http P net req_body) = Reply n (RpcError i c e))"
proof -
  have m: "get_prop req_body ''method'' = Some (JStr ''tools/call'')"
    using assms(1) by (intro field_defined) simp_all
  have q: "get_prop (field (field req_body ''params'') ''arguments'') ''query'' = Some q
        \<Longrightarrow> typeof q \<noteq> ''string''" for q
    using assms(2) by (simp add: field_def)
  show ?thesis
    using q by (auto simp: mcp_retry_http_def Let_def m split: option.splits)
qed


lemma mcp_call_server_valid:
  assumes "truthy args" and "typeof (field args ''query'') = ''string''"
      and "field req_body ''name'' = tool_name" and "field req_body ''arguments'' = args"
  shows "mcp_call_server P net req_body
       = (case performSearch_server net (field args ''query'') (options_server args) of
            (Inl error, posted) \<Rightarrow> (Reply 500 (ErrorPayload (SearchFailed error)), posted)
          | (Inr (Open response), posted) \<Rightarrow>
              if shouldStream args then (streamPerplexityToSSE P response, posted)
              else (Reply 200 (ToolPayload [server_text (Open response)] False), posted)
          | (Inr result, posted) \<Rightarrow> (Reply 200 (ToolPayload [server_text result] False), posted))"
proof -
  have "get_prop req_body ''name'' = Some tool_name"
    using assms(3) by (intro field_defined) (simp_all add: tool_name_def)
  then show ?thesis using assms
    by (simp add: mcp_call_server_def Let_def tool_name_def)
qed





lemma streamPerplexityToSSE_read_fails:
  assumes "body response = Some (reads, ReadFails m)"
      and "sse_read_loop P (\<lparr>sse_searchResults = None, written = []\<rparr>, []) reads = Inr s"
  shows "streamPerplexityToSSE P response = Reply 200 (EventStream (written s @ [ErrorEvent (ReadError m)]))"
  using assms by (simp add: streamPerplexityToSSE_def)

lemma mcp_call_server_read_fails:
  assumes "truthy args" and "typeof (field args ''query'') = ''string''"
      and "field req_body ''name'' = tool_name" and "field req_body ''arguments'' = args"
      and "fst (performSearch_server net (field args ''query'') (options_server args)) = Inr (Open response)"
      and "shouldStream args"
      and "body response = Some (reads, ReadFails m)"
      and "sse_read_loop P (\<lparr>sse_searchResults = None, written = []\<rparr>, []) reads = Inr s"
  shows "fst (mcp_call_server P net req_body)
       = Reply 200 (EventStream (written s @ [ErrorEvent (ReadError m)]))"
proof -
  obtain p where "performSearch_server net (field args ''query'') (options_server args)
      = (Inr (Open response), p)"
    using assms(5)
    by (cases "performSearch_server net (field args ''query'') (options_server args)") simp
  then show ?thesis
    unfolding mcp_call_server_valid[OF assms(1,2,3,4)]
    using assms(6) streamPerplexityToSSE_read_fails[OF assms(7,8)] by simp
qed













end
